theory Spec2Isabelle
  imports Complex_Main "HOL-Library.Multiset"
begin

chapter \<open>ODS v9.2: modal session state and shortcut store\<close>

text \<open>
  A shallow embedding of two classes of the repository:
  \<^item> \<^verbatim>\<open>ModalState\<close> of \<^verbatim>\<open>src/modal/ods.modal.js\<close> (lines 13-63);
  \<^item> \<^verbatim>\<open>ShortcutDataStore\<close> of \<^verbatim>\<open>src/core/storage/shortcut-store.js\<close>.

  An object is a record of its fields and a method is a function that takes the object
  and returns the method's result together with the updated object. What a method reads
  from the outside (the clock, the text of a title, the content of \<^verbatim>\<open>localStorage\<close>) is
  an argument or a field of the state.
\<close>

section \<open>ModalState\<close>

text \<open>
  The fields are \<^verbatim>\<open>null\<close> or a value: \<open>None\<close> is \<^verbatim>\<open>null\<close>. The identifiers are strings
  (\<^verbatim>\<open>@param {string} modalId\<close>) and \<^verbatim>\<open>Date.now()\<close> is an integer number of milliseconds.
\<close>

record ModalState =
  activeModalId :: "string option"
  activeModuleId :: "string option"
  openedAt :: "int option"
  previousModalId :: "string option"
  isTransitioning :: bool

text \<open>The constructor (lines 14-20).\<close>

definition new_ModalState :: ModalState where
  "new_ModalState =
     \<lparr>activeModalId = None, activeModuleId = None, openedAt = None,
      previousModalId = None, isTransitioning = False\<rparr>"

text \<open>
  JavaScript's truthiness of a field that is \<^verbatim>\<open>null\<close> or a string (\<^verbatim>\<open>if (this.activeModalId)\<close>):
  \<^verbatim>\<open>null\<close> and the empty string are falsy. Likewise for \<^verbatim>\<open>null\<close> or a number, where
  \<^verbatim>\<open>0\<close> is falsy.
\<close>

definition truthy_id :: "string option \<Rightarrow> bool" where
  "truthy_id v = (case v of None \<Rightarrow> False | Some s \<Rightarrow> s \<noteq> [])"

definition truthy_time :: "int option \<Rightarrow> bool" where
  "truthy_time v = (case v of None \<Rightarrow> False | Some t \<Rightarrow> t \<noteq> 0)"

text \<open>
  \<^verbatim>\<open>open(modalId, moduleId)\<close> (lines 28-40); \<open>now\<close> is what \<^verbatim>\<open>Date.now()\<close> returns.
  The assignments are made in the order of the source.
\<close>

definition open_modal :: "int \<Rightarrow> string \<Rightarrow> string \<Rightarrow> ModalState \<Rightarrow> bool \<times> ModalState" where
  "open_modal now modalId moduleId s =
     (if isTransitioning s \<or> truthy_id (activeModalId s) then (False, s)
      else
        let s1 = s\<lparr>isTransitioning := True\<rparr>;
            s2 = s1\<lparr>previousModalId := activeModalId s1\<rparr>;
            s3 = s2\<lparr>activeModalId := Some modalId\<rparr>;
            s4 = s3\<lparr>activeModuleId := Some moduleId\<rparr>;
            s5 = s4\<lparr>openedAt := Some now\<rparr>;
            s6 = s5\<lparr>isTransitioning := False\<rparr>
        in (True, s6))"

text \<open>\<^verbatim>\<open>close()\<close> (lines 46-54).\<close>

definition close_modal :: "int \<Rightarrow> ModalState \<Rightarrow> int \<times> ModalState" where
  "close_modal now s =
     (let duration = (if truthy_time (openedAt s) then now - the (openedAt s) else 0)
      in (duration, s\<lparr>activeModalId := None, activeModuleId := None, openedAt := None\<rparr>))"

text \<open>\<^verbatim>\<open>isActive()\<close> (lines 60-62): a comparison with \<^verbatim>\<open>null\<close>, not a truthiness test.\<close>

definition isActive :: "ModalState \<Rightarrow> bool" where
  "isActive s = (activeModalId s \<noteq> None)"

text \<open>
  The reachable states are those a sequence of calls produces from the constructor's
  state. A call is recorded with its arguments and the clock value it reads.
\<close>

datatype modal_call = Open int string string | Close int

fun modal_step :: "ModalState \<Rightarrow> modal_call \<Rightarrow> ModalState" where
  "modal_step s (Open now modalId moduleId) = snd (open_modal now modalId moduleId s)"
| "modal_step s (Close now) = snd (close_modal now s)"

definition modal_run :: "modal_call list \<Rightarrow> ModalState" where
  "modal_run calls = foldl modal_step new_ModalState calls"

text \<open>The identifiers passed to \<^verbatim>\<open>open\<close> in a sequence of calls.\<close>

fun opened_ids :: "modal_call list \<Rightarrow> string list" where
  "opened_ids [] = []"
| "opened_ids (Open now modalId moduleId # cs) = modalId # opened_ids cs"
| "opened_ids (Close now # cs) = opened_ids cs"

section \<open>JavaScript values and the runtime\<close>

text \<open>
  A number of the engine is a finite value or one of the two infinities; \<^verbatim>\<open>NaN\<close>, which
  no JSON text denotes and which only a failed conversion or the difference of two equal
  infinities produces, is \<open>None\<close> where it can arise. A finite number is the rational
  it denotes (every double is one), and \<^verbatim>\<open>-0\<close> is \<^verbatim>\<open>0\<close>: the store never tells them
  apart. The order is the one of \<^verbatim>\<open><=\<close>.
\<close>

datatype jsnum = NegInf | Fin rat | PosInf

instantiation jsnum :: linorder
begin

fun less_eq_jsnum :: "jsnum \<Rightarrow> jsnum \<Rightarrow> bool" where
  "less_eq_jsnum NegInf y = True"
| "less_eq_jsnum (Fin a) NegInf = False"
| "less_eq_jsnum (Fin a) (Fin b) = (a \<le> b)"
| "less_eq_jsnum (Fin a) PosInf = True"
| "less_eq_jsnum PosInf NegInf = False"
| "less_eq_jsnum PosInf (Fin b) = False"
| "less_eq_jsnum PosInf PosInf = True"

definition less_jsnum :: "jsnum \<Rightarrow> jsnum \<Rightarrow> bool" where
  "less_jsnum x y = (x \<le> y \<and> \<not> y \<le> x)"

instance
proof
  fix x y z :: jsnum
  show "(x < y) = (x \<le> y \<and> \<not> y \<le> x)"
    by (simp add: less_jsnum_def)
  show "x \<le> x"
    by (cases x) simp_all
  show "x \<le> y \<Longrightarrow> y \<le> z \<Longrightarrow> x \<le> z"
    by (cases x; cases y; cases z) simp_all
  show "x \<le> y \<Longrightarrow> y \<le> x \<Longrightarrow> x = y"
    by (cases x; cases y) simp_all
  show "x \<le> y \<or> y \<le> x"
    by (cases x; cases y) auto
qed

end

text \<open>
  The number an array index or a length is, and \<^verbatim>\<open>a - b\<close> on numbers (the sign of the
  difference of two doubles is the sign of the difference of the rationals).
\<close>

definition index_num :: "nat \<Rightarrow> jsnum" where
  "index_num n = Fin (of_nat n)"

fun minus_num :: "jsnum \<Rightarrow> jsnum \<Rightarrow> jsnum option" where
  "minus_num (Fin a) (Fin b) = Some (Fin (a - b))"
| "minus_num (Fin a) PosInf = Some NegInf"
| "minus_num (Fin a) NegInf = Some PosInf"
| "minus_num PosInf PosInf = None"
| "minus_num PosInf (Fin b) = Some PosInf"
| "minus_num PosInf NegInf = Some PosInf"
| "minus_num NegInf NegInf = None"
| "minus_num NegInf (Fin b) = Some NegInf"
| "minus_num NegInf PosInf = Some NegInf"

text \<open>
  The store handles values that come out of \<^verbatim>\<open>JSON.parse\<close>, so its input is any JSON
  value, and a missing property reads as \<^verbatim>\<open>undefined\<close>. A string is a list of characters,
  each standing for one code unit. An object is the list of its own properties;
  \<open>js_get\<close> reads the first entry with the key.
\<close>

datatype jsval =
    JUndefined
  | JNull
  | JBool bool
  | JNum jsnum
  | JStr string
  | JArr "jsval list"
  | JObj "(string \<times> jsval) list"

text \<open>
  The built-in functions of the engine that the store calls, and whose tables are not
  part of the repository, are parameters: \<^verbatim>\<open>String.prototype.toUpperCase\<close>, the
  conversion of a string to a number (\<open>None\<close> is \<^verbatim>\<open>NaN\<close>) and of a number to a string,
  \<^verbatim>\<open>JSON.parse\<close> (\<open>None\<close> is a \<^verbatim>\<open>SyntaxError\<close>) and \<^verbatim>\<open>JSON.stringify\<close>.
\<close>

record runtime =
  toUpperCase :: "string \<Rightarrow> string"
  stringToNumber :: "string \<Rightarrow> jsnum option"
  numberToString :: "jsnum \<Rightarrow> string"
  JSON_parse :: "string \<Rightarrow> jsval option"
  JSON_stringify :: "jsval \<Rightarrow> string"

text \<open>Truthiness (\<^verbatim>\<open>Boolean(v)\<close>, \<^verbatim>\<open>!v\<close>, \<^verbatim>\<open>v || w\<close>, \<^verbatim>\<open>v && w\<close>).\<close>

fun truthy :: "jsval \<Rightarrow> bool" where
  "truthy JUndefined = False"
| "truthy JNull = False"
| "truthy (JBool b) = b"
| "truthy (JNum n) = (n \<noteq> Fin 0)"
| "truthy (JStr s) = (s \<noteq> [])"
| "truthy (JArr xs) = True"
| "truthy (JObj kvs) = True"

text \<open>\<^verbatim>\<open>typeof v === 'object'\<close> and \<^verbatim>\<open>Array.isArray(v)\<close>.\<close>

fun typeof_object :: "jsval \<Rightarrow> bool" where
  "typeof_object JNull = True"
| "typeof_object (JArr xs) = True"
| "typeof_object (JObj kvs) = True"
| "typeof_object v = False"

fun isArray :: "jsval \<Rightarrow> bool" where
  "isArray (JArr xs) = True"
| "isArray v = False"

text \<open>
  \<^verbatim>\<open>v.k\<close> for the property names the store reads (\<^verbatim>\<open>id\<close>, \<^verbatim>\<open>label\<close>, \<^verbatim>\<open>enabled\<close>, \<^verbatim>\<open>action\<close>,
  \<^verbatim>\<open>type\<close>, \<^verbatim>\<open>target\<close>, \<^verbatim>\<open>position\<close>, \<^verbatim>\<open>visible\<close>, \<^verbatim>\<open>created_at\<close>, \<^verbatim>\<open>updated_at\<close>): none of them
  is a property of an array, a string, a number or a boolean, nor of the prototype of
  an object, so only an object that has it as its own property has a value for them. The
  store never reads a property of \<^verbatim>\<open>null\<close> or \<^verbatim>\<open>undefined\<close> with a plain dot (the filter
  of \<^verbatim>\<open>validateShortcuts\<close> runs first), so reading a property raises no \<^verbatim>\<open>TypeError\<close>.
  \<^verbatim>\<open>v?.k\<close> is \<open>js_get_opt\<close>, and \<^verbatim>\<open>a || b\<close> on values is \<open>or_else\<close>.
\<close>

fun js_get :: "jsval \<Rightarrow> string \<Rightarrow> jsval" where
  "js_get (JObj kvs) k = (case map_of kvs k of None \<Rightarrow> JUndefined | Some v \<Rightarrow> v)"
| "js_get v k = JUndefined"

definition js_get_opt :: "jsval \<Rightarrow> string \<Rightarrow> jsval" where
  "js_get_opt v k = (if v = JNull \<or> v = JUndefined then JUndefined else js_get v k)"

definition or_else :: "jsval \<Rightarrow> jsval \<Rightarrow> jsval" where
  "or_else a b = (if truthy a then a else b)"

text \<open>
  \<^verbatim>\<open>String(v)\<close> and the conversion inside a template literal. The conversion of an
  object or an array can raise a \<^verbatim>\<open>TypeError\<close>: \<open>None\<close>. An object is converted by its
  \<^verbatim>\<open>toString\<close> method. An object that \<^verbatim>\<open>JSON.parse\<close> made inherits the method of
  \<^verbatim>\<open>Object.prototype\<close>, which returns \<^verbatim>\<open>'[object Object]'\<close>, unless it has a property
  \<^verbatim>\<open>toString\<close> of its own; the value of that property is no function, the inherited
  \<^verbatim>\<open>valueOf\<close> returns the object itself, and so the conversion raises. An array is the
  comma-separated list of its elements converted in turn, with \<^verbatim>\<open>null\<close> and \<^verbatim>\<open>undefined\<close>
  printed as nothing; it raises when the conversion of an element does.
\<close>

fun join :: "string \<Rightarrow> string list \<Rightarrow> string" where
  "join sep [] = []"
| "join sep [x] = x"
| "join sep (x # y # ys) = x @ sep @ join sep (y # ys)"

fun to_string :: "runtime \<Rightarrow> jsval \<Rightarrow> string option" where
  "to_string rt JUndefined = Some ''undefined''"
| "to_string rt JNull = Some ''null''"
| "to_string rt (JBool b) = Some (if b then ''true'' else ''false'')"
| "to_string rt (JNum n) = Some (numberToString rt n)"
| "to_string rt (JStr s) = Some s"
| "to_string rt (JArr xs) =
     map_option (join '','')
       (those (map (\<lambda>x. if x = JNull \<or> x = JUndefined then Some [] else to_string rt x) xs))"
| "to_string rt (JObj kvs) =
     (if map_of kvs ''toString'' = None then Some ''[object Object]'' else None)"

text \<open>
  \<^verbatim>\<open>Number(v)\<close>: the outer \<open>None\<close> is a \<^verbatim>\<open>TypeError\<close>, the inner one \<^verbatim>\<open>NaN\<close>. An array
  or an object is converted through its string: \<^verbatim>\<open>valueOf\<close> returns the object itself,
  so the engine goes on to \<^verbatim>\<open>toString\<close>.
\<close>

fun to_number :: "runtime \<Rightarrow> jsval \<Rightarrow> jsnum option option" where
  "to_number rt JUndefined = Some None"
| "to_number rt JNull = Some (Some (Fin 0))"
| "to_number rt (JBool b) = Some (Some (Fin (if b then 1 else 0)))"
| "to_number rt (JNum n) = Some (Some n)"
| "to_number rt (JStr s) = Some (stringToNumber rt s)"
| "to_number rt v = map_option (stringToNumber rt) (to_string rt v)"

text \<open>\<^verbatim>\<open>n || d\<close> on a number: \<^verbatim>\<open>NaN\<close> and \<^verbatim>\<open>0\<close> are falsy.\<close>

definition number_or :: "jsnum option \<Rightarrow> jsnum \<Rightarrow> jsnum" where
  "number_or n d = (case n of None \<Rightarrow> d | Some k \<Rightarrow> if k = Fin 0 then d else k)"

text \<open>
  White space as \<^verbatim>\<open>trim()\<close> and the regular expression \<^verbatim>\<open>\s\<close> see it, among the code units
  below 256: tab, line feed, vertical tab, form feed, carriage return, space and the
  no-break space.
\<close>

definition is_ws :: "char \<Rightarrow> bool" where
  "is_ws c =
     (c \<in> set [CHR 0x09, CHR 0x0A, CHR 0x0B, CHR 0x0C, CHR 0x0D, CHR 0x20, CHR 0xA0])"

definition trim :: "string \<Rightarrow> string" where
  "trim s = rev (dropWhile is_ws (rev (dropWhile is_ws s)))"

text \<open>
  \<^verbatim>\<open>s.split(/\s+/)\<close>: the pieces between the maximal runs of white space; a run at an
  end of the string leaves an empty piece there, and the empty string gives one empty
  piece.
\<close>

function split_ws :: "string \<Rightarrow> string list" where
  "split_ws [] = [[]]"
| "split_ws (c # cs) =
     (if is_ws c then [] # split_ws (dropWhile is_ws cs)
      else (case split_ws cs of w # ws \<Rightarrow> (c # w) # ws | [] \<Rightarrow> [[c]]))"
  by pat_completeness auto
termination
  by (relation "measure length") (auto simp: length_dropWhile_le less_Suc_eq_le)

text \<open>
  \<^verbatim>\<open>xs.sort(cmp)\<close>: the sort of an array is stable (ECMAScript 2019), so with a
  comparator that is a consistent order the result is determined. It is computed here
  by insertion from the right: an element goes before the first one it does not exceed.
  A comparator that returns \<^verbatim>\<open>NaN\<close> has returned \<^verbatim>\<open>0\<close> as far as the sort is concerned.
\<close>

definition not_positive :: "jsnum option \<Rightarrow> bool" where
  "not_positive v = (case v of None \<Rightarrow> True | Some n \<Rightarrow> n \<le> Fin 0)"

fun insert_by :: "('a \<Rightarrow> 'a \<Rightarrow> jsnum option) \<Rightarrow> 'a \<Rightarrow> 'a list \<Rightarrow> 'a list" where
  "insert_by cmp x [] = [x]"
| "insert_by cmp x (y # ys) =
     (if not_positive (cmp x y) then x # y # ys else y # insert_by cmp x ys)"

definition sort_js :: "('a \<Rightarrow> 'a \<Rightarrow> jsnum option) \<Rightarrow> 'a list \<Rightarrow> 'a list" where
  "sort_js cmp xs = foldr (insert_by cmp) xs []"

text \<open>
  An object found by \<^verbatim>\<open>xs.find(p)\<close> and then assigned to is the first element that
  satisfies \<open>p\<close>, changed in place; \<^verbatim>\<open>xs.splice(xs.findIndex(p), 1)\<close> removes it.
\<close>

fun update_first :: "('a \<Rightarrow> bool) \<Rightarrow> ('a \<Rightarrow> 'a) \<Rightarrow> 'a list \<Rightarrow> 'a list" where
  "update_first P f [] = []"
| "update_first P f (x # xs) = (if P x then f x # xs else x # update_first P f xs)"


section \<open>ShortcutDataStore\<close>

text \<open>
  The objects \<^verbatim>\<open>validateShortcuts\<close> builds (lines 183-195) and \<^verbatim>\<open>toggle\<close> creates (lines
  89-101) have the same eight properties. \<^verbatim>\<open>label\<close>, \<^verbatim>\<open>enabled\<close>, \<^verbatim>\<open>position\<close> and \<^verbatim>\<open>visible\<close>
  have a fixed type; the other properties keep whatever truthy value the input had.
\<close>

record action =
  type :: jsval
  target :: jsval

record shortcut =
  id_js :: jsval
  label :: string
  enabled :: bool
  action :: action
  position :: jsnum
  visible :: bool
  created_at :: jsval
  updated_at :: jsval

text \<open>A record as the value it is when handed to \<^verbatim>\<open>save\<close> or \<^verbatim>\<open>JSON.stringify\<close>.\<close>

definition to_js :: "shortcut \<Rightarrow> jsval" where
  "to_js s =
     JObj [(''id'', id_js s), (''label'', JStr (label s)), (''enabled'', JBool (enabled s)),
           (''action'', JObj [(''type'', type (action s)), (''target'', target (action s))]),
           (''position'', JNum (position s)), (''visible'', JBool (visible s)),
           (''created_at'', created_at s), (''updated_at'', updated_at s)]"

text \<open>
  The state: the field \<^verbatim>\<open>cache\<close> of the store (\<open>None\<close> is \<^verbatim>\<open>null\<close>), and the part of the
  browser it acts on. \<open>item\<close> is the value of \<^verbatim>\<open>localStorage\<close> under the key
  \<^verbatim>\<open>'ods-shortcuts'\<close> (\<open>None\<close> when absent); \<open>getItem_throws\<close> says that reading
  raises, \<open>setItem_throws\<close> which texts the storage refuses to write (a quota, a
  disabled storage); \<open>events\<close> lists the \<^verbatim>\<open>detail.shortcuts\<close> of the
  \<^verbatim>\<open>'shortcuts-updated'\<close> events dispatched so far. A refused write leaves the stored
  value as it was, and \<^verbatim>\<open>dispatchEvent\<close> does not raise.
\<close>

record ShortcutDataStore =
  cache :: "shortcut list option"
  item :: "string option"
  getItem_throws :: bool
  setItem_throws :: "string \<Rightarrow> bool"
  events :: "shortcut list list"

text \<open>The constructor (lines 7-11), in a browser whose storage is as given.\<close>

definition new_ShortcutDataStore ::
    "string option \<Rightarrow> bool \<Rightarrow> (string \<Rightarrow> bool) \<Rightarrow> ShortcutDataStore" where
  "new_ShortcutDataStore stored reading writing =
     \<lparr>cache = None, item = stored, getItem_throws = reading, setItem_throws = writing,
      events = []\<rparr>"

text \<open>
  \<^verbatim>\<open>generateDefaultLabel(title)\<close> (lines 163-169). \<^verbatim>\<open>w[0]\<close> of an empty piece is
  \<^verbatim>\<open>undefined\<close>, which \<^verbatim>\<open>join('')\<close> prints as nothing: \<open>take 1\<close>.
\<close>

definition generateDefaultLabel :: "runtime \<Rightarrow> string \<Rightarrow> string" where
  "generateDefaultLabel rt title =
     (if title = [] then ''XX''
      else
        let words = split_ws (trim title);
            letters = toUpperCase rt (concat (map (take 1) words));
            short = take 3 letters
        in if short = [] then ''XX'' else short)"

text \<open>
  \<^verbatim>\<open>validateLabel(label)\<close> (lines 201-211); \<open>None\<close> when \<^verbatim>\<open>String(label)\<close> raises.
\<close>

definition validateLabel :: "runtime \<Rightarrow> jsval \<Rightarrow> string option" where
  "validateLabel rt label' =
     (if \<not> truthy label' then Some ''XX''
      else
        (case to_string rt label' of
           None \<Rightarrow> None
         | Some converted \<Rightarrow>
             let cleaned = trim converted
             in if cleaned = [] then Some ''XX''
                else if length cleaned > 20 then Some (take 20 cleaned)
                else Some cleaned))"

text \<open>
  \<^verbatim>\<open>validateShortcuts(shortcuts)\<close> (lines 174-196): \<open>keeps\<close> is the predicate of the
  filter, \<open>repair\<close> the function of the map; \<open>now\<close> is the text of
  \<^verbatim>\<open>new Date().toISOString()\<close>. Three expressions of the object literal convert a value
  and can raise: the template literal of the default \<^verbatim>\<open>id\<close>, evaluated only when \<^verbatim>\<open>s.id\<close>
  is falsy, \<^verbatim>\<open>String(label)\<close> inside \<^verbatim>\<open>validateLabel\<close>, and \<^verbatim>\<open>Number(s.position)\<close>. When one
  of them raises, for any entry that the filter keeps, the call of \<^verbatim>\<open>validateShortcuts\<close>
  raises: \<open>None\<close>. \<open>default_id\<close> is the expression of the property \<^verbatim>\<open>id\<close> (line 184).
\<close>

definition keeps :: "jsval \<Rightarrow> bool" where
  "keeps s =
     (truthy s \<and> typeof_object s \<and> truthy (js_get_opt (js_get s ''action'') ''target''))"

definition default_id :: "runtime \<Rightarrow> jsval \<Rightarrow> jsval option" where
  "default_id rt s =
     (if truthy (js_get s ''id'') then Some (js_get s ''id'')
      else map_option (\<lambda>t. JStr (''shortcut-'' @ t))
             (to_string rt (js_get (js_get s ''action'') ''target'')))"

definition repair :: "runtime \<Rightarrow> string \<Rightarrow> jsval \<Rightarrow> shortcut option" where
  "repair rt now s =
     (case default_id rt s of
        None \<Rightarrow> None
      | Some i \<Rightarrow>
          (case validateLabel rt (js_get s ''label'') of
             None \<Rightarrow> None
           | Some l \<Rightarrow>
               (case to_number rt (js_get s ''position'') of
                  None \<Rightarrow> None
                | Some n \<Rightarrow>
                    Some \<lparr>id_js = i,
                          label = l,
                          enabled = truthy (js_get s ''enabled''),
                          action =
                            \<lparr>type = or_else (js_get (js_get s ''action'') ''type'') (JStr ''modal''),
                             target = js_get (js_get s ''action'') ''target''\<rparr>,
                          position = number_or n (Fin 0),
                          visible = (js_get s ''visible'' \<noteq> JBool False),
                          created_at = or_else (js_get s ''created_at'') (JStr now),
                          updated_at = or_else (js_get s ''updated_at'') (JStr now)\<rparr>)))"

definition validateShortcuts :: "runtime \<Rightarrow> string \<Rightarrow> jsval \<Rightarrow> shortcut list option" where
  "validateShortcuts rt now shortcuts =
     (case shortcuts of
        JArr xs \<Rightarrow> those (map (repair rt now) (filter keeps xs))
      | _ \<Rightarrow> Some [])"

text \<open>\<^verbatim>\<open>reindexPositions(shortcuts)\<close> (lines 216-223).\<close>

definition reindexPositions :: "shortcut list \<Rightarrow> shortcut list" where
  "reindexPositions shortcuts =
     map (\<lambda>(index, shortcut). shortcut\<lparr>position := index_num index\<rparr>)
       (enumerate 0 (sort_js (\<lambda>a b. minus_num (position a) (position b)) shortcuts))"

text \<open>\<^verbatim>\<open>dispatchChangeEvent(shortcuts)\<close> (lines 228-238).\<close>

definition dispatchChangeEvent :: "shortcut list \<Rightarrow> ShortcutDataStore \<Rightarrow> ShortcutDataStore" where
  "dispatchChangeEvent shortcuts st = st\<lparr>events := events st @ [shortcuts]\<rparr>"

text \<open>
  \<^verbatim>\<open>save(shortcuts)\<close> (lines 46-60). Two statements of the \<^verbatim>\<open>try\<close> block can raise:
  the call of \<^verbatim>\<open>validateShortcuts\<close> and \<^verbatim>\<open>localStorage.setItem\<close>. Both come before the
  first assignment, and the \<^verbatim>\<open>catch\<close> block returns \<^verbatim>\<open>false\<close>.
\<close>

definition save ::
    "runtime \<Rightarrow> string \<Rightarrow> jsval \<Rightarrow> ShortcutDataStore \<Rightarrow> bool \<times> ShortcutDataStore" where
  "save rt now shortcuts st =
     (case validateShortcuts rt now shortcuts of
        None \<Rightarrow> (False, st)
      | Some validated \<Rightarrow>
          let reindexed = reindexPositions validated;
              text = JSON_stringify rt (JArr (map to_js reindexed))
          in if setItem_throws st text then (False, st)
             else (True, dispatchChangeEvent reindexed
                           (st\<lparr>item := Some text, cache := Some reindexed\<rparr>)))"

text \<open>
  \<^verbatim>\<open>load()\<close> (lines 17-40). \<open>load_failed\<close> is the \<^verbatim>\<open>catch\<close> block (lines 34-39), entered
  when \<^verbatim>\<open>getItem\<close>, \<^verbatim>\<open>JSON.parse\<close> or \<^verbatim>\<open>validateShortcuts\<close> raises. \<^verbatim>\<open>load\<close> returns the array
  that \<^verbatim>\<open>this.cache\<close> refers to, not a copy.
\<close>

definition load_failed ::
    "runtime \<Rightarrow> string \<Rightarrow> ShortcutDataStore \<Rightarrow> shortcut list \<times> ShortcutDataStore" where
  "load_failed rt now st =
     (let st1 = snd (save rt now (JArr []) (st\<lparr>cache := Some []\<rparr>))
      in (case cache st1 of Some c \<Rightarrow> c | None \<Rightarrow> [], st1))"

definition load ::
    "runtime \<Rightarrow> string \<Rightarrow> ShortcutDataStore \<Rightarrow> shortcut list \<times> ShortcutDataStore" where
  "load rt now st =
     (case cache st of
        Some c \<Rightarrow> (c, st)
      | None \<Rightarrow>
          if getItem_throws st then load_failed rt now st
          else
            (case item st of
               None \<Rightarrow> ([], st\<lparr>cache := Some []\<rparr>)
             | Some rawData \<Rightarrow>
                 if rawData = [] then ([], st\<lparr>cache := Some []\<rparr>)
                 else
                   (case JSON_parse rt rawData of
                      None \<Rightarrow> load_failed rt now st
                    | Some parsed \<Rightarrow>
                        let shortcuts = (if isArray parsed then parsed else JArr [])
                        in (case validateShortcuts rt now shortcuts of
                              None \<Rightarrow> load_failed rt now st
                            | Some validated \<Rightarrow> (validated, st\<lparr>cache := Some validated\<rparr>)))))"

text \<open>
  The test \<^verbatim>\<open>s.action?.target === modalId\<close> of \<^verbatim>\<open>find\<close> and \<^verbatim>\<open>findIndex\<close>, for a string
  \<^verbatim>\<open>modalId\<close>: strict equality with a string holds for that string only.
\<close>

definition targets :: "string \<Rightarrow> shortcut \<Rightarrow> bool" where
  "targets modalId s = (target (action s) = JStr modalId)"


definition getEnabledShortcuts ::
    "runtime \<Rightarrow> string \<Rightarrow> ShortcutDataStore \<Rightarrow> shortcut list \<times> ShortcutDataStore" where
  "getEnabledShortcuts rt now st =
     (let (shortcuts, st1) = load rt now st in (filter enabled shortcuts, st1))"

text \<open>
  \<^verbatim>\<open>toggle(modalId, enabled, modalTitle = '')\<close> (lines 82-109). The three clock
  readings of a call are arguments: \<open>nowL\<close> inside \<^verbatim>\<open>load\<close>, \<open>nowT\<close> in \<^verbatim>\<open>toggle\<close> itself,
  \<open>nowS\<close> inside \<^verbatim>\<open>save\<close>. \<^verbatim>\<open>shortcuts\<close> is the array of the cache, so \<^verbatim>\<open>push\<close> and the
  assignments to the found object change the cache before \<^verbatim>\<open>save\<close> runs, whether or not
  \<^verbatim>\<open>save\<close> succeeds: the state handed to \<open>save\<close> has the changed array as its cache.
\<close>

definition new_shortcut :: "runtime \<Rightarrow> string \<Rightarrow> string \<Rightarrow> string \<Rightarrow> nat \<Rightarrow> shortcut" where
  "new_shortcut rt now modalId modalTitle n =
     \<lparr>id_js = JStr (''shortcut-'' @ modalId),
      label = generateDefaultLabel rt modalTitle,
      enabled = True,
      action = \<lparr>type = JStr ''modal'', target = JStr modalId\<rparr>,
      position = index_num n,
      visible = True,
      created_at = JStr now,
      updated_at = JStr now\<rparr>"

definition toggle ::
    "runtime \<Rightarrow> string \<Rightarrow> string \<Rightarrow> string \<Rightarrow> string \<Rightarrow> bool \<Rightarrow> string \<Rightarrow> ShortcutDataStore
     \<Rightarrow> bool \<times> ShortcutDataStore" where
  "toggle rt nowL nowT nowS modalId enabled' modalTitle st =
     (let (shortcuts, st1) = load rt nowL st
      in case find (targets modalId) shortcuts of
           None \<Rightarrow>
             if enabled' then
               let shortcuts' =
                     shortcuts @ [new_shortcut rt nowT modalId modalTitle (length shortcuts)]
               in save rt nowS (JArr (map to_js shortcuts')) (st1\<lparr>cache := Some shortcuts'\<rparr>)
             else save rt nowS (JArr (map to_js shortcuts)) st1
         | Some found \<Rightarrow>
             let shortcuts' = update_first (targets modalId)
                   (\<lambda>s. s\<lparr>enabled := enabled', updated_at := JStr nowT\<rparr>) shortcuts
             in save rt nowS (JArr (map to_js shortcuts')) (st1\<lparr>cache := Some shortcuts'\<rparr>))"

text \<open>
  \<^verbatim>\<open>updateLabel(modalId, label)\<close> (lines 115-135); \<open>sanitize\<close> is its lines 124-129,
  for a string \<^verbatim>\<open>label\<close>.
\<close>

definition sanitize :: "string \<Rightarrow> string" where
  "sanitize label' =
     (let validLabel = trim label'
      in if validLabel = [] then ''XX''
         else if length validLabel > 20 then take 20 validLabel
         else validLabel)"

definition updateLabel ::
    "runtime \<Rightarrow> string \<Rightarrow> string \<Rightarrow> string \<Rightarrow> string \<Rightarrow> string \<Rightarrow> ShortcutDataStore
     \<Rightarrow> bool \<times> ShortcutDataStore" where
  "updateLabel rt nowL nowT nowS modalId label' st =
     (let (shortcuts, st1) = load rt nowL st
      in case find (targets modalId) shortcuts of
           None \<Rightarrow> (False, st1)
         | Some found \<Rightarrow>
             let shortcuts' = update_first (targets modalId)
                   (\<lambda>s. s\<lparr>label := sanitize label', updated_at := JStr nowT\<rparr>) shortcuts
             in save rt nowS (JArr (map to_js shortcuts')) (st1\<lparr>cache := Some shortcuts'\<rparr>))"



text \<open>\<^verbatim>\<open>importData(jsonString)\<close> (lines 251-259).\<close>

definition importData ::
    "runtime \<Rightarrow> string \<Rightarrow> string \<Rightarrow> ShortcutDataStore \<Rightarrow> bool \<times> ShortcutDataStore" where
  "importData rt now jsonString st =
     (case JSON_parse rt jsonString of
        None \<Rightarrow> (False, st)
      | Some data \<Rightarrow> save rt now data st)"

section \<open>Sequences of calls\<close>





text \<open>
  Positions that are the indices: \<open>0, 1, ..., n - 1\<close> along the array. \<open>new_events\<close> are
  the sequences that the saves made between two states have written and dispatched.
\<close>

definition dense :: "shortcut list \<Rightarrow> bool" where
  "dense rs = (map position rs = map index_num [0..<length rs])"


text \<open>The targets of a sequence of records, in order.\<close>

definition targets_of :: "shortcut list \<Rightarrow> jsval list" where
  "targets_of rs = map (\<lambda>s. target (action s)) rs"

section \<open>Well-formed records and invariants\<close>

text \<open>
  A label as \<^verbatim>\<open>validateLabel\<close> leaves it untouched: not empty, at most 20 characters, no
  white space at either end. A record is well formed when, besides, the properties that
  \<^verbatim>\<open>validateShortcuts\<close> replaces when falsy are truthy: validation then returns the record
  as it is.
\<close>

definition label_ok :: "string \<Rightarrow> bool" where
  "label_ok l = (l \<noteq> [] \<and> length l \<le> 20 \<and> \<not> is_ws (hd l) \<and> \<not> is_ws (last l))"

definition well_formed :: "shortcut \<Rightarrow> bool" where
  "well_formed s =
     (truthy (id_js s) \<and> label_ok (label s) \<and> truthy (type (action s)) \<and>
      truthy (target (action s)) \<and> truthy (created_at s) \<and> truthy (updated_at s))"

text \<open>
  A sequence in saved form: well-formed records whose positions are their indices, as a
  successful \<^verbatim>\<open>save\<close> of well-formed records leaves it. And the one property of
  \<^verbatim>\<open>toUpperCase\<close> that the default label needs: it makes no white space out of
  characters that are not white space.
\<close>

definition saved_form :: "shortcut list \<Rightarrow> bool" where
  "saved_form rs = (list_all well_formed rs \<and> dense rs)"

definition upper_clean :: "runtime \<Rightarrow> bool" where
  "upper_clean rt =
     (\<forall>s. (\<forall>c \<in> set s. \<not> is_ws c) \<longrightarrow> (\<forall>c \<in> set (toUpperCase rt s). \<not> is_ws c))"





text \<open>
  The default label as the specification words it, to compare with
  \<open>generateDefaultLabel\<close>: the words of the title are its maximal runs of characters
  that are not white space; the label is made of their first characters.
\<close>

function words_of :: "string \<Rightarrow> string list" where
  "words_of [] = []"
| "words_of (c # cs) =
     (if is_ws c then words_of cs
      else (c # takeWhile (\<lambda>x. \<not> is_ws x) cs) # words_of (dropWhile (\<lambda>x. \<not> is_ws x) cs))"
  by pat_completeness auto
termination
  by (relation "measure length") (auto simp: length_dropWhile_le less_Suc_eq_le)

definition default_label_spec :: "runtime \<Rightarrow> string \<Rightarrow> string" where
  "default_label_spec rt title =
     (let short = take 3 (toUpperCase rt (map hd (words_of title)))
      in if short = [] then ''XX'' else short)"

text \<open>
  The repair of one entry, property by property in the order of the validation paragraph
  of the specification, to compare with \<open>repair\<close>; a property counts as absent when its
  value is falsy, as the source tests it. \<open>id\<close> is kept, or made from the text of the
  target when absent; the label is sanitized (the text of the value trimmed, \<^verbatim>\<open>XX\<close> when
  nothing is left, at most its first 20 characters); \<open>enabled\<close> is coerced to a boolean;
  the type of the action defaults to \<^verbatim>\<open>modal\<close> and its target is kept; the position is
  coerced to a number, 0 when that gives \<^verbatim>\<open>NaN\<close>; \<open>visible\<close> is true unless it is
  \<^verbatim>\<open>false\<close>; the timestamps default to the current time. No record is the repair of an
  entry when a conversion to text or to a number raises.
\<close>

definition coerced :: "runtime \<Rightarrow> string \<Rightarrow> jsval \<Rightarrow> shortcut \<Rightarrow> bool" where
  "coerced rt now x r =
     ((if truthy (js_get x ''id'') then id_js r = js_get x ''id''
       else (case to_string rt (js_get (js_get x ''action'') ''target'') of
               None \<Rightarrow> False
             | Some t \<Rightarrow> id_js r = JStr (''shortcut-'' @ t))) \<and>
      (if truthy (js_get x ''label'') then
         (case to_string rt (js_get x ''label'') of
            None \<Rightarrow> False
          | Some l \<Rightarrow> label r = (if trim l = [] then ''XX'' else take 20 (trim l)))
       else label r = ''XX'') \<and>
      enabled r = truthy (js_get x ''enabled'') \<and>
      type (action r) =
        (if truthy (js_get (js_get x ''action'') ''type'') then js_get (js_get x ''action'') ''type''
         else JStr ''modal'') \<and>
      target (action r) = js_get (js_get x ''action'') ''target'' \<and>
      (case to_number rt (js_get x ''position'') of
         None \<Rightarrow> False
       | Some None \<Rightarrow> position r = Fin 0
       | Some (Some n) \<Rightarrow> position r = n) \<and>
      visible r = (js_get x ''visible'' \<noteq> JBool False) \<and>
      created_at r =
        (if truthy (js_get x ''created_at'') then js_get x ''created_at'' else JStr now) \<and>
      updated_at r =
        (if truthy (js_get x ''updated_at'') then js_get x ''updated_at'' else JStr now))"

section \<open>A sample runtime\<close>

text \<open>
  The theorems below hold for every runtime. To evaluate them on concrete inputs, here
  is one. It behaves as a JavaScript engine does on a fragment: upper case of strings of
  ASCII characters; conversion to numbers of strings of decimal digits, with or without
  a point and a fraction, with a sign and white space around them, and of \<^verbatim>\<open>Infinity\<close>
  (any other string is \<^verbatim>\<open>NaN\<close> here, also one with an exponent or in hexadecimal);
  printing of integers of fewer than 22 digits and of numbers with a decimal fraction of
  at most 20 digits; JSON texts made of arrays, objects, numbers without exponent,
  \<^verbatim>\<open>true\<close>, \<^verbatim>\<open>false\<close>, \<^verbatim>\<open>null\<close> and strings without escape sequences, and the printing of
  such values (an infinity is printed as \<^verbatim>\<open>null\<close>). \<open>parse_json\<close> rejects any other
  text, and the examples stay inside the fragment. The parser reads tokens and then
  values, each with a bound on the number of steps that the length of its input meets;
  an object lists its members from the last to the first, so that of two members with
  the same key it keeps the later one.
\<close>

definition ascii_upper :: "char \<Rightarrow> char" where
  "ascii_upper c =
     (case map_of (zip ''abcdefghijklmnopqrstuvwxyz'' ''ABCDEFGHIJKLMNOPQRSTUVWXYZ'') c of
        None \<Rightarrow> c
      | Some u \<Rightarrow> u)"

definition digit_of :: "char \<Rightarrow> nat option" where
  "digit_of c = map_of (zip ''0123456789'' [0, 1, 2, 3, 4, 5, 6, 7, 8, 9]) c"

definition is_digit :: "char \<Rightarrow> bool" where
  "is_digit c = (digit_of c \<noteq> None)"

definition nat_of_digits :: "string \<Rightarrow> nat" where
  "nat_of_digits ds = foldl (\<lambda>n c. 10 * n + the (digit_of c)) 0 ds"

fun digits_of_nat :: "nat \<Rightarrow> nat \<Rightarrow> string" where
  "digits_of_nat 0 n = []"
| "digits_of_nat (Suc fuel) n =
     (if n < 10 then [''0123456789'' ! n]
      else digits_of_nat fuel (n div 10) @ [''0123456789'' ! (n mod 10)])"

definition show_int :: "int \<Rightarrow> string" where
  "show_int i =
     (if i < 0 then CHR ''-'' # digits_of_nat (Suc (nat (- i))) (nat (- i))
      else digits_of_nat (Suc (nat i)) (nat i))"

fun fraction_digits :: "nat \<Rightarrow> rat \<Rightarrow> string" where
  "fraction_digits 0 f = []"
| "fraction_digits (Suc fuel) f =
     (if f = 0 then []
      else (''0123456789'' ! nat \<lfloor>f * 10\<rfloor>) #
           fraction_digits fuel (f * 10 - of_int \<lfloor>f * 10\<rfloor>))"

definition show_rat :: "rat \<Rightarrow> string" where
  "show_rat r =
     (let a = \<bar>r\<bar>;
          f = a - of_int \<lfloor>a\<rfloor>
      in (if r < 0 then ''-'' else []) @ show_int \<lfloor>a\<rfloor> @
         (if f = 0 then [] else CHR ''.'' # fraction_digits 20 f))"

definition show_num :: "jsnum \<Rightarrow> string" where
  "show_num n =
     (case n of NegInf \<Rightarrow> ''-Infinity'' | Fin r \<Rightarrow> show_rat r | PosInf \<Rightarrow> ''Infinity'')"

text \<open>
  A numeral without sign: digits, and possibly a point and more digits. \<open>read_numeral\<close>
  returns its value and what follows it in the text.
\<close>

definition read_numeral :: "string \<Rightarrow> (rat \<times> string) option" where
  "read_numeral s =
     (let whole = takeWhile is_digit s;
          rest = dropWhile is_digit s
      in if whole = [] then None
         else if rest \<noteq> [] \<and> hd rest = CHR ''.'' \<and> takeWhile is_digit (tl rest) \<noteq> [] then
           Some (of_nat (nat_of_digits whole) +
                   of_nat (nat_of_digits (takeWhile is_digit (tl rest))) /
                     10 ^ length (takeWhile is_digit (tl rest)),
                 dropWhile is_digit (tl rest))
         else Some (of_nat (nat_of_digits whole), rest))"

text \<open>
  \<^verbatim>\<open>Number\<close> of a string is more liberal about the point than JSON: digits may be missing
  on one side of it.
\<close>

definition unsigned_num :: "string \<Rightarrow> jsnum option" where
  "unsigned_num t =
     (let whole = takeWhile is_digit t;
          rest = dropWhile is_digit t
      in if t = ''Infinity'' then Some PosInf
         else if rest = [] then
           (if whole = [] then None else Some (Fin (of_nat (nat_of_digits whole))))
         else if hd rest = CHR ''.'' \<and> list_all is_digit (tl rest) \<and> (whole \<noteq> [] \<or> tl rest \<noteq> [])
           then Some (Fin (of_nat (nat_of_digits whole) +
                           of_nat (nat_of_digits (tl rest)) / 10 ^ length (tl rest)))
         else None)"

definition negate :: "jsnum \<Rightarrow> jsnum" where
  "negate n = (case n of NegInf \<Rightarrow> PosInf | Fin r \<Rightarrow> Fin (- r) | PosInf \<Rightarrow> NegInf)"

definition read_num :: "string \<Rightarrow> jsnum option" where
  "read_num s =
     (let t = trim s
      in if t = [] then Some (Fin 0)
         else if hd t = CHR ''-'' then map_option negate (unsigned_num (tl t))
         else if hd t = CHR ''+'' then unsigned_num (tl t)
         else unsigned_num t)"

datatype token = TLBracket | TRBracket | TLBrace | TRBrace | TComma | TColon | TValue jsval

definition cons_tok :: "token \<Rightarrow> token list option \<Rightarrow> token list option" where
  "cons_tok t r = map_option (Cons t) r"

definition plain_char :: "char \<Rightarrow> bool" where
  "plain_char c = (c \<noteq> CHR 0x22 \<and> c \<noteq> CHR 0x5C \<and> \<not> (of_char c < (32::nat)))"

fun lex :: "nat \<Rightarrow> string \<Rightarrow> token list option" where
  "lex 0 cs = None"
| "lex (Suc fuel) [] = Some []"
| "lex (Suc fuel) (c # cs) =
     (if c \<in> set [CHR 0x20, CHR 0x09, CHR 0x0A, CHR 0x0D] then lex fuel cs
      else if c = CHR ''['' then cons_tok TLBracket (lex fuel cs)
      else if c = CHR '']'' then cons_tok TRBracket (lex fuel cs)
      else if c = CHR ''{'' then cons_tok TLBrace (lex fuel cs)
      else if c = CHR ''}'' then cons_tok TRBrace (lex fuel cs)
      else if c = CHR '','' then cons_tok TComma (lex fuel cs)
      else if c = CHR '':'' then cons_tok TColon (lex fuel cs)
      else if c = CHR 0x22 then
        (case dropWhile plain_char cs of
           [] \<Rightarrow> None
         | q # rest \<Rightarrow>
             if q = CHR 0x22 then cons_tok (TValue (JStr (takeWhile plain_char cs))) (lex fuel rest)
             else None)
      else if is_digit c then
        (if c = CHR ''0'' \<and> cs \<noteq> [] \<and> is_digit (hd cs) then None
         else
           (case read_numeral (c # cs) of
              None \<Rightarrow> None
            | Some (r, rest) \<Rightarrow> cons_tok (TValue (JNum (Fin r))) (lex fuel rest)))
      else if c = CHR ''-'' then
        (if cs = [] \<or> \<not> is_digit (hd cs) \<or> (hd cs = CHR ''0'' \<and> tl cs \<noteq> [] \<and> is_digit (hd (tl cs)))
         then None
         else
           (case read_numeral cs of
              None \<Rightarrow> None
            | Some (r, rest) \<Rightarrow> cons_tok (TValue (JNum (Fin (- r)))) (lex fuel rest)))
      else if take 4 (c # cs) = ''null'' then cons_tok (TValue JNull) (lex fuel (drop 3 cs))
      else if take 4 (c # cs) = ''true'' then cons_tok (TValue (JBool True)) (lex fuel (drop 3 cs))
      else if take 5 (c # cs) = ''false'' then cons_tok (TValue (JBool False)) (lex fuel (drop 4 cs))
      else None)"

fun parse_value :: "nat \<Rightarrow> token list \<Rightarrow> (jsval \<times> token list) option"
  and parse_elements :: "nat \<Rightarrow> token list \<Rightarrow> (jsval list \<times> token list) option"
  and parse_members :: "nat \<Rightarrow> token list \<Rightarrow> ((string \<times> jsval) list \<times> token list) option"
where
  "parse_value 0 ts = None"
| "parse_value (Suc fuel) [] = None"
| "parse_value (Suc fuel) (TValue v # ts) = Some (v, ts)"
| "parse_value (Suc fuel) (TLBracket # TRBracket # ts) = Some (JArr [], ts)"
| "parse_value (Suc fuel) (TLBracket # ts) =
     (case parse_value fuel ts of
        None \<Rightarrow> None
      | Some (v, ts1) \<Rightarrow>
          (case parse_elements fuel ts1 of
             None \<Rightarrow> None
           | Some (vs, ts2) \<Rightarrow> Some (JArr (v # vs), ts2)))"
| "parse_value (Suc fuel) (TLBrace # TRBrace # ts) = Some (JObj [], ts)"
| "parse_value (Suc fuel) (TLBrace # TValue (JStr k) # TColon # ts) =
     (case parse_value fuel ts of
        None \<Rightarrow> None
      | Some (v, ts1) \<Rightarrow>
          (case parse_members fuel ts1 of
             None \<Rightarrow> None
           | Some (kvs, ts2) \<Rightarrow> Some (JObj (rev ((k, v) # kvs)), ts2)))"
| "parse_value (Suc fuel) (t # ts) = None"
| "parse_elements 0 ts = None"
| "parse_elements (Suc fuel) (TRBracket # ts) = Some ([], ts)"
| "parse_elements (Suc fuel) (TComma # ts) =
     (case parse_value fuel ts of
        None \<Rightarrow> None
      | Some (v, ts1) \<Rightarrow>
          (case parse_elements fuel ts1 of
             None \<Rightarrow> None
           | Some (vs, ts2) \<Rightarrow> Some (v # vs, ts2)))"
| "parse_elements (Suc fuel) ts = None"
| "parse_members 0 ts = None"
| "parse_members (Suc fuel) (TRBrace # ts) = Some ([], ts)"
| "parse_members (Suc fuel) (TComma # TValue (JStr k) # TColon # ts) =
     (case parse_value fuel ts of
        None \<Rightarrow> None
      | Some (v, ts1) \<Rightarrow>
          (case parse_members fuel ts1 of
             None \<Rightarrow> None
           | Some (kvs, ts2) \<Rightarrow> Some ((k, v) # kvs, ts2)))"
| "parse_members (Suc fuel) ts = None"

definition parse_json :: "string \<Rightarrow> jsval option" where
  "parse_json s =
     (case lex (Suc (length s)) s of
        None \<Rightarrow> None
      | Some ts \<Rightarrow>
          (case parse_value (Suc (length ts)) ts of
             Some (v, []) \<Rightarrow> Some v
           | _ \<Rightarrow> None))"

definition quote :: "string \<Rightarrow> string" where
  "quote s = [CHR 0x22] @ s @ [CHR 0x22]"

fun print_json :: "jsval \<Rightarrow> string" where
  "print_json JUndefined = ''null''"
| "print_json JNull = ''null''"
| "print_json (JBool b) = (if b then ''true'' else ''false'')"
| "print_json (JNum n) = (case n of Fin r \<Rightarrow> show_rat r | _ \<Rightarrow> ''null'')"
| "print_json (JStr s) = quote s"
| "print_json (JArr xs) = ''['' @ join '','' (map print_json xs) @ '']''"
| "print_json (JObj kvs) =
     ''{'' @ join '','' (map (\<lambda>(k, v). quote k @ '':'' @ print_json v)
                        (filter (\<lambda>(k, v). v \<noteq> JUndefined) kvs)) @ ''}''"

definition rt0 :: runtime where
  "rt0 = \<lparr>toUpperCase = map ascii_upper, stringToNumber = read_num, numberToString = show_num,
          JSON_parse = parse_json, JSON_stringify = print_json\<rparr>"

section \<open>Sample records and storages\<close>

text \<open>
  Concrete inputs for evaluating the theorems: a well-formed record for a target at a
  position, a storage that refuses every write and one that accepts every write.
\<close>

definition sample :: "string \<Rightarrow> rat \<Rightarrow> shortcut" where
  "sample t p =
     \<lparr>id_js = JStr (''shortcut-'' @ t), label = ''XX'', enabled = True,
      action = \<lparr>type = JStr ''modal'', target = JStr t\<rparr>, position = Fin p, visible = True,
      created_at = JStr ''2024-01-01T00:00:00.000Z'',
      updated_at = JStr ''2024-01-01T00:00:00.000Z''\<rparr>"

definition quota_exceeded :: "string \<Rightarrow> bool" where
  "quota_exceeded text = True"

definition unlimited :: "string \<Rightarrow> bool" where
  "unlimited text = False"

text \<open>A store just constructed, in a browser with nothing stored.\<close>

definition fresh_store :: ShortcutDataStore where
  "fresh_store = new_ShortcutDataStore None False unlimited"

text \<open>A store that has saved one record, in a browser whose storage is full since.\<close>

definition full_store :: ShortcutDataStore where
  "full_store =
     (snd (save rt0 ''2024-01-01T00:00:00.000Z'' (JArr [to_js (sample ''a'' 0)]) fresh_store))
       \<lparr>setItem_throws := quota_exceeded\<rparr>"

text \<open>A store just constructed, in a browser that holds the given text under the key.\<close>

definition store_with :: "string \<Rightarrow> ShortcutDataStore" where
  "store_with raw = new_ShortcutDataStore (Some raw) False unlimited"

text \<open>
  The store after \<^verbatim>\<open>toggle("x", true, "Xylophone")\<close> on a fresh store, and the record it then
  holds.
\<close>

definition x_store :: ShortcutDataStore where
  "x_store =
     snd (toggle rt0 ''2024-05-05T10:00:00.000Z'' ''2024-05-05T10:00:00.001Z''
            ''2024-05-05T10:00:00.002Z'' ''x'' True ''Xylophone'' fresh_store)"

definition x_record :: shortcut where
  "x_record =
     \<lparr>id_js = JStr ''shortcut-x'', label = ''X'', enabled = True,
      action = \<lparr>type = JStr ''modal'', target = JStr ''x''\<rparr>, position = Fin 0, visible = True,
      created_at = JStr ''2024-05-05T10:00:00.001Z'',
      updated_at = JStr ''2024-05-05T10:00:00.001Z''\<rparr>"



section \<open>Properties of ModalState\<close>

lemma modal_run_snoc: "modal_run (cs @ [c]) = modal_step (modal_run cs) c"
  by (simp add: modal_run_def)

lemma opened_ids_append: "opened_ids (cs @ ds) = opened_ids cs @ opened_ids ds"
  by (induction cs rule: opened_ids.induct) simp_all

lemma reachable_not_transitioning: "\<not> isTransitioning (modal_run cs)"
proof (induction cs rule: rev_induct)
  case Nil
  show ?case by (simp add: modal_run_def new_ModalState_def)
next
  case (snoc c cs)
  then show ?case
    by (cases c) (simp_all add: modal_run_snoc open_modal_def close_modal_def Let_def)
qed

text \<open>
  The guard of \<^verbatim>\<open>open\<close> rejects, and leaves every field alone, when a transition is in
  flight or the active identifier is a non-empty string.
\<close>

lemma open_modal_rejects:
  "isTransitioning s \<or> truthy_id (activeModalId s) \<Longrightarrow>
   open_modal now modalId moduleId s = (False, s)"
  by (simp add: open_modal_def)

lemma open_modal_accepts:
  "\<not> isTransitioning s \<Longrightarrow> \<not> truthy_id (activeModalId s) \<Longrightarrow>
   open_modal now modalId moduleId s =
     (True, s\<lparr>previousModalId := activeModalId s, activeModalId := Some modalId,
              activeModuleId := Some moduleId, openedAt := Some now\<rparr>)"
  by (simp add: open_modal_def Let_def)

lemma close_modal_clears:
  "activeModalId (snd (close_modal now s)) = None \<and>
   activeModuleId (snd (close_modal now s)) = None \<and>
   openedAt (snd (close_modal now s)) = None \<and>
   previousModalId (snd (close_modal now s)) = previousModalId s \<and>
   isTransitioning (snd (close_modal now s)) = isTransitioning s"
  by (simp add: close_modal_def)

lemma close_modal_duration:
  "fst (close_modal now s) =
     (case openedAt s of None \<Rightarrow> 0 | Some t \<Rightarrow> if t = 0 then 0 else now - t)"
  by (simp add: close_modal_def truthy_time_def split: option.splits)

lemma open_after_close:
  "fst (open_modal now' modalId moduleId (snd (close_modal now (modal_run cs))))"
  using reachable_not_transitioning [of cs]
  by (simp add: open_modal_def close_modal_def truthy_id_def)

text \<open>
  With non-empty identifiers the session is exclusive: in a reachable state an active
  modal blocks \<^verbatim>\<open>open\<close>, and \<^verbatim>\<open>previousModalId\<close> is never set.
\<close>

lemma reachable_active_nonempty:
  "\<forall>m \<in> set (opened_ids cs). m \<noteq> [] \<Longrightarrow>
   isActive (modal_run cs) \<Longrightarrow> truthy_id (activeModalId (modal_run cs))"
proof (induction cs rule: rev_induct)
  case Nil
  then show ?case by (simp add: modal_run_def new_ModalState_def isActive_def)
next
  case (snoc c cs)
  show ?case
  proof (cases c)
    case (Open now modalId moduleId)
    with snoc show ?thesis
      by (auto simp: modal_run_snoc opened_ids_append open_modal_def Let_def
          truthy_id_def isActive_def split: option.splits)
  next
    case (Close now)
    with snoc.prems show ?thesis
      by (simp add: modal_run_snoc close_modal_def isActive_def)
  qed
qed

lemma exclusive_session_nonempty_ids:
  "\<forall>m \<in> set (opened_ids cs). m \<noteq> [] \<Longrightarrow> isActive (modal_run cs) \<Longrightarrow>
   open_modal now modalId moduleId (modal_run cs) = (False, modal_run cs)"
  using reachable_active_nonempty [of cs] by (simp add: open_modal_rejects)

lemma previous_falsy: "\<not> truthy_id (previousModalId (modal_run cs))"
proof (induction cs rule: rev_induct)
  case Nil
  show ?case by (simp add: modal_run_def new_ModalState_def truthy_id_def)
next
  case (snoc c cs)
  then show ?case
    by (cases c) (simp_all add: modal_run_snoc open_modal_def close_modal_def Let_def)
qed

lemma previous_null_nonempty_ids:
  "\<forall>m \<in> set (opened_ids cs). m \<noteq> [] \<Longrightarrow> previousModalId (modal_run cs) = None"
proof (induction cs rule: rev_induct)
  case Nil
  show ?case by (simp add: modal_run_def new_ModalState_def)
next
  case (snoc c cs)
  have ids: "\<forall>m \<in> set (opened_ids cs). m \<noteq> []"
    using snoc.prems by (simp add: opened_ids_append)
  show ?case
  proof (cases c)
    case (Open now modalId moduleId)
    have "activeModalId (modal_run cs) = None \<or> truthy_id (activeModalId (modal_run cs))"
      using reachable_active_nonempty [OF ids]
      by (cases "activeModalId (modal_run cs)") (simp_all add: isActive_def)
    then show ?thesis
      using snoc.IH [OF ids] Open
      by (auto simp: modal_run_snoc open_modal_def Let_def)
  next
    case (Close now)
    then show ?thesis
      using snoc.IH [OF ids] by (simp add: modal_run_snoc close_modal_def)
  qed
qed

text \<open>
  Claim C1 (exclusive modal session): a call to \<^verbatim>\<open>open\<close> while a modal is active returns
  false and changes no field. The code breaks it for the empty identifier: after
  \<^verbatim>\<open>open("", "mod1")\<close> the state is active (\<^verbatim>\<open>isActive()\<close> compares with \<^verbatim>\<open>null\<close>), yet the guard
  of \<^verbatim>\<open>open\<close> tests truthiness, so \<^verbatim>\<open>open("m2", "mod2")\<close> is accepted and replaces the session.
\<close>

theorem C1_open_accepted_while_active:
  "isActive (modal_run [Open 1000 [] ''mod1'']) \<and>
   open_modal 2000 ''m2'' ''mod2'' (modal_run [Open 1000 [] ''mod1'']) =
     (True, \<lparr>activeModalId = Some ''m2'', activeModuleId = Some ''mod2'',
             openedAt = Some 2000, previousModalId = Some [], isTransitioning = False\<rparr>)"
  by (simp add: modal_run_def new_ModalState_def open_modal_def isActive_def truthy_id_def)

text \<open>
  Claim C10 (\<^verbatim>\<open>previousModalId\<close> is \<^verbatim>\<open>null\<close> in every reachable state): the same two calls
  reach a state whose \<^verbatim>\<open>previousModalId\<close> is the empty string, not \<^verbatim>\<open>null\<close>.
\<close>

theorem C10_previous_not_null_reachable:
  "previousModalId (modal_run [Open 1000 [] ''mod1'', Open 2000 ''m2'' ''mod2'']) = Some []"
  by (simp add: modal_run_def new_ModalState_def open_modal_def truthy_id_def)

section \<open>Properties of ShortcutDataStore\<close>

subsection \<open>Sorting and reindexing\<close>

lemma not_positive_minus_num: "not_positive (minus_num a b) \<longleftrightarrow> a \<le> b"
  by (cases a; cases b) (simp_all add: not_positive_def)

lemma insert_by_position:
  "insert_by (\<lambda>a b. minus_num (position a) (position b)) x ys = insort_key position x ys"
  by (induction ys) (simp_all add: not_positive_minus_num)

lemma sort_js_position:
  "sort_js (\<lambda>a b. minus_num (position a) (position b)) xs = sort_key position xs"
  by (induction xs) (simp_all add: sort_js_def insert_by_position)

lemma map_enumerate_update:
  "map (\<lambda>(index, s). f index s) (enumerate n xs) = map2 f [n..<n + length xs] xs"
  by (simp add: enumerate_eq_zip)

lemma reindexPositions_eq:
  "reindexPositions xs =
     map2 (\<lambda>index s. s\<lparr>position := index_num index\<rparr>) [0..<length xs] (sort_key position xs)"
  by (simp add: reindexPositions_def sort_js_position enumerate_eq_zip)


lemma map2_position_upd:
  "length is = length xs \<Longrightarrow>
   map position (map2 (\<lambda>index s. s\<lparr>position := index_num index\<rparr>) is xs) = map index_num is"
  by (induction "is" xs rule: list_induct2) simp_all

lemma positions_reindexPositions:
  "map position (reindexPositions xs) = map index_num [0..<length xs]"
  unfolding reindexPositions_eq by (rule map2_position_upd) simp

lemma map2_erase_upd:
  "length is = length xs \<Longrightarrow>
   map (\<lambda>s. s\<lparr>position := p\<rparr>) (map2 (\<lambda>index s. s\<lparr>position := index_num index\<rparr>) is xs)
   = map (\<lambda>s. s\<lparr>position := p\<rparr>) xs"
  by (induction "is" xs rule: list_induct2) simp_all

lemma erase_reindexPositions:
  "map (\<lambda>s. s\<lparr>position := p\<rparr>) (reindexPositions xs)
   = map (\<lambda>s. s\<lparr>position := p\<rparr>) (sort_key position xs)"
  unfolding reindexPositions_eq by (rule map2_erase_upd) simp

lemma map2_position_id:
  "map position xs = map index_num is \<Longrightarrow>
   map2 (\<lambda>index s. s\<lparr>position := index_num index\<rparr>) is xs = xs"
proof (induction xs arbitrary: "is")
  case Nil
  then show ?case by simp
next
  case (Cons x xs)
  then obtain i js where "is = i # js" by (cases "is") auto
  with Cons show ?case by auto
qed

lemma index_num_le [simp]: "index_num m \<le> index_num n \<longleftrightarrow> m \<le> n"
  by (simp add: index_num_def)

lemma index_num_eq [simp]: "index_num m = index_num n \<longleftrightarrow> m = n"
  by (simp add: index_num_def)

lemma sorted_index_upt: "sorted (map index_num [m..<n])"
  by (induction n) (auto simp: sorted_append)

lemma reindexPositions_dense:
  assumes "map position xs = map index_num [0..<length xs]"
  shows "reindexPositions xs = xs"
proof -
  have "sorted (map position xs)" using assms sorted_index_upt by simp
  then have "sort_key position xs = xs" by (rule sort_key_id_if_sorted)
  then show ?thesis using assms by (simp add: reindexPositions_eq map2_position_id)
qed

subsection \<open>Conversions that raise\<close>

lemma those_map_Some: "those (map (\<lambda>x. Some (f x)) xs) = Some (map f xs)"
  by (induction xs) simp_all

lemma those_eq_Some:
  "those (map f xs) = Some ys \<longleftrightarrow> list_all2 (\<lambda>x y. f x = Some y) xs ys"
proof (induction xs arbitrary: ys)
  case Nil
  show ?case by auto
next
  case (Cons x xs)
  show ?case
    by (cases ys) (auto simp: Cons split: option.splits)
qed

lemma those_eq_None: "those (map f xs) = None \<longleftrightarrow> (\<exists>x \<in> set xs. f x = None)"
  by (induction xs) (auto split: option.splits)


lemma to_string_object:
  "to_string rt (JObj kvs) = None \<longleftrightarrow> map_of kvs ''toString'' \<noteq> None"
  by simp

lemma to_string_array:
  "to_string rt (JArr xs) = None \<longleftrightarrow>
   (\<exists>x \<in> set xs. x \<noteq> JNull \<and> x \<noteq> JUndefined \<and> to_string rt x = None)"
  by (auto simp: those_eq_None)

lemma to_number_raises: "to_number rt v = None \<longleftrightarrow> to_string rt v = None"
  by (cases v) simp_all

subsection \<open>Trimming and validation\<close>

lemma trim_Nil [simp]: "trim [] = []"
  by (simp add: trim_def)

lemma trim_id: "s \<noteq> [] \<Longrightarrow> \<not> is_ws (hd s) \<Longrightarrow> \<not> is_ws (last s) \<Longrightarrow> trim s = s"
proof -
  assume a: "s \<noteq> []" "\<not> is_ws (hd s)" "\<not> is_ws (last s)"
  have 1: "dropWhile is_ws s = s" using a by (cases s) simp_all
  have 2: "dropWhile is_ws (rev s) = rev s" using a by (cases "rev s") (simp_all add: last_rev hd_rev)
  show ?thesis by (simp add: trim_def 1 2)
qed

lemma last_dropWhile_ne: "dropWhile P xs \<noteq> [] \<Longrightarrow> last (dropWhile P xs) = last xs"
  by (metis last_appendR takeWhile_dropWhile_id)

lemma trim_ends:
  assumes "trim s \<noteq> []"
  shows "\<not> is_ws (hd (trim s))" and "\<not> is_ws (last (trim s))"
proof -
  let ?t = "dropWhile is_ws s"
  let ?u = "dropWhile is_ws (rev ?t)"
  have u: "?u \<noteq> []" using assms by (simp add: trim_def)
  have t: "?t \<noteq> []"
  proof
    assume e: "?t = []"
    have "?u = dropWhile is_ws (rev [])" unfolding e ..
    with u show False by simp
  qed
  have "hd (trim s) = last ?u" using u by (simp add: trim_def hd_rev)
  also have "\<dots> = last (rev ?t)" using u by (rule last_dropWhile_ne)
  also have "\<dots> = hd ?t" using t by (simp add: last_rev)
  finally have "hd (trim s) = hd ?t" .
  moreover have "\<not> is_ws (hd ?t)" using t by (rule hd_dropWhile)
  ultimately show "\<not> is_ws (hd (trim s))" by simp
  have "last (trim s) = hd ?u" using u by (simp add: trim_def last_rev)
  moreover have "\<not> is_ws (hd ?u)" using u by (rule hd_dropWhile)
  ultimately show "\<not> is_ws (last (trim s))" by simp
qed

lemma trim_trim [simp]: "trim (trim s) = trim s"
  by (cases "trim s = []") (simp_all add: trim_id trim_ends)

lemma length_trim: "length (trim s) \<le> length s"
proof -
  have "length (trim s) \<le> length (dropWhile is_ws s)"
    unfolding trim_def length_rev using length_dropWhile_le [of is_ws "rev (dropWhile is_ws s)"] by simp
  also have "\<dots> \<le> length s" by (rule length_dropWhile_le)
  finally show ?thesis .
qed

lemma trim_no_ws: "\<forall>c \<in> set s. \<not> is_ws c \<Longrightarrow> trim s = s"
  by (cases "s = []") (simp_all add: trim_id)

lemma validateLabel_string: "validateLabel rt (JStr l) = Some (sanitize l)"
  by (simp add: validateLabel_def sanitize_def Let_def)

lemma validateLabel_ok: "label_ok l \<Longrightarrow> validateLabel rt (JStr l) = Some l"
  by (simp add: validateLabel_def label_ok_def trim_id Let_def)

lemma sanitize_ok: "label_ok l \<Longrightarrow> sanitize l = l"
  using validateLabel_ok [of l undefined] by (simp add: validateLabel_string)

lemma validateLabel_nonempty: "validateLabel rt v = Some l \<Longrightarrow> l \<noteq> []"
  by (auto simp: validateLabel_def Let_def split: if_splits option.splits)

lemma validateLabel_length: "validateLabel rt v = Some l \<Longrightarrow> length l \<le> 20"
  by (auto simp: validateLabel_def Let_def split: if_splits option.splits)

lemma validateLabel_raises:
  "validateLabel rt v = None \<longleftrightarrow> truthy v \<and> to_string rt v = None"
  by (auto simp: validateLabel_def Let_def split: option.splits)

lemma default_id_raises:
  "default_id rt s = None \<longleftrightarrow>
   \<not> truthy (js_get s ''id'') \<and> to_string rt (js_get (js_get s ''action'') ''target'') = None"
  by (simp add: default_id_def)

lemma repair_raises:
  "repair rt now s = None \<longleftrightarrow>
   (\<not> truthy (js_get s ''id'') \<and> to_string rt (js_get (js_get s ''action'') ''target'') = None) \<or>
   (truthy (js_get s ''label'') \<and> to_string rt (js_get s ''label'') = None) \<or>
   to_string rt (js_get s ''position'') = None"
proof -
  have "repair rt now s = None \<longleftrightarrow>
        default_id rt s = None \<or> validateLabel rt (js_get s ''label'') = None \<or>
        to_number rt (js_get s ''position'') = None"
    by (auto simp: repair_def split: option.splits)
  then show ?thesis
    by (simp only: default_id_raises validateLabel_raises to_number_raises)
qed

lemma keeps_to_js: "keeps (to_js s) = truthy (target (action s))"
  by (simp add: keeps_def to_js_def js_get_opt_def)

lemma default_id_to_js:
  "default_id rt (to_js s) =
     (if truthy (id_js s) then Some (id_js s)
      else map_option (\<lambda>t. JStr (''shortcut-'' @ t)) (to_string rt (target (action s))))"
  by (simp add: default_id_def to_js_def)

lemma repair_to_js:
  "repair rt now (to_js s) =
     map_option
       (\<lambda>i. s\<lparr>id_js := i,
              label := sanitize (label s),
              action := \<lparr>type = or_else (type (action s)) (JStr ''modal''), target = target (action s)\<rparr>,
              created_at := or_else (created_at s) (JStr now),
              updated_at := or_else (updated_at s) (JStr now)\<rparr>)
       (default_id rt (to_js s))"
proof -
  have "js_get (to_js s) ''label'' = JStr (label s)"
    and "js_get (to_js s) ''position'' = JNum (position s)"
    by (simp_all add: to_js_def)
  then show ?thesis
    by (cases "default_id rt (to_js s)")
       (simp_all add: repair_def validateLabel_string number_or_def, simp add: to_js_def)
qed

lemma repair_to_js_id:
  "truthy (id_js s) \<Longrightarrow>
   repair rt now (to_js s) =
     Some (s\<lparr>label := sanitize (label s),
              action := \<lparr>type = or_else (type (action s)) (JStr ''modal''), target = target (action s)\<rparr>,
              created_at := or_else (created_at s) (JStr now),
              updated_at := or_else (updated_at s) (JStr now)\<rparr>)"
  by (simp add: repair_to_js default_id_to_js)

lemma repair_well_formed: "well_formed s \<Longrightarrow> repair rt now (to_js s) = Some s"
  by (simp add: repair_to_js_id well_formed_def or_else_def sanitize_ok)

lemma validateShortcuts_to_js:
  "validateShortcuts rt now (JArr (map to_js xs)) =
     those (map (\<lambda>s. repair rt now (to_js s)) (filter (\<lambda>s. truthy (target (action s))) xs))"
  by (simp add: validateShortcuts_def filter_map comp_def keeps_to_js)

lemma validateShortcuts_well_formed:
  "\<forall>s \<in> set xs. well_formed s \<Longrightarrow> validateShortcuts rt now (JArr (map to_js xs)) = Some xs"
proof -
  assume wf: "\<forall>s \<in> set xs. well_formed s"
  then have f: "filter (\<lambda>s. truthy (target (action s))) xs = xs"
    by (auto simp: well_formed_def filter_id_conv)
  have "map (\<lambda>s. repair rt now (to_js s)) xs = map (\<lambda>s. Some (id s)) xs"
    using wf by (simp add: repair_well_formed)
  then have "those (map (\<lambda>s. repair rt now (to_js s)) xs) = Some (map id xs)"
    by (simp only: those_map_Some)
  then show ?thesis by (simp add: validateShortcuts_to_js f)
qed

subsection \<open>Saving and loading\<close>

lemma save_raised: "validateShortcuts rt now v = None \<Longrightarrow> save rt now v st = (False, st)"
  by (simp add: save_def)

lemma save_refused:
  "validateShortcuts rt now v = Some validated \<Longrightarrow>
   setItem_throws st (JSON_stringify rt (JArr (map to_js (reindexPositions validated)))) \<Longrightarrow>
   save rt now v st = (False, st)"
  by (simp add: save_def Let_def)

lemma save_accepted:
  "validateShortcuts rt now v = Some validated \<Longrightarrow>
   \<not> setItem_throws st (JSON_stringify rt (JArr (map to_js (reindexPositions validated)))) \<Longrightarrow>
   save rt now v st =
     (True, st\<lparr>item := Some (JSON_stringify rt (JArr (map to_js (reindexPositions validated)))),
              cache := Some (reindexPositions validated),
              events := events st @ [reindexPositions validated]\<rparr>)"
  by (simp add: save_def Let_def dispatchChangeEvent_def)

lemma save_True_iff:
  "fst (save rt now v st) \<longleftrightarrow>
   (\<exists>validated. validateShortcuts rt now v = Some validated \<and>
      \<not> setItem_throws st (JSON_stringify rt (JArr (map to_js (reindexPositions validated)))))"
proof (cases "validateShortcuts rt now v")
  case None
  then show ?thesis by (simp add: save_def)
next
  case (Some pre)
  then show ?thesis
    by (cases "setItem_throws st (JSON_stringify rt (JArr (map to_js (reindexPositions pre))))")
       (simp_all add: save_def Let_def)
qed

lemma save_False: "\<not> fst (save rt now v st) \<Longrightarrow> save rt now v st = (False, st)"
proof (cases "validateShortcuts rt now v")
  case None
  then show ?thesis by (simp add: save_def)
next
  case (Some pre)
  assume "\<not> fst (save rt now v st)"
  with Some show ?thesis
    by (cases "setItem_throws st (JSON_stringify rt (JArr (map to_js (reindexPositions pre))))")
       (simp_all add: save_def Let_def)
qed

lemma load_cached: "cache st = Some c \<Longrightarrow> load rt now st = (c, st)"
  by (simp add: load_def)

text \<open>
  Claim C4 (save atomicity on write failure): when \<^verbatim>\<open>setItem\<close> refuses the text that
  \<^verbatim>\<open>save\<close> writes, \<^verbatim>\<open>save\<close> returns \<^verbatim>\<open>false\<close> and the state is the state before the call:
  the cache and the stored value are unchanged, and a following \<^verbatim>\<open>load\<close> returns what it
  would have returned before, the cached sequence when there is one. The text that
  \<^verbatim>\<open>save\<close> writes is that of the validated and renumbered records; a \<^verbatim>\<open>save\<close> that fails
  for any reason, a write refused or a conversion that raises, leaves the state as it
  was.
\<close>

theorem C4_save_write_failure:
  assumes "validateShortcuts rt now shortcuts = Some validated"
    and "setItem_throws st (JSON_stringify rt (JArr (map to_js (reindexPositions validated))))"
  shows "save rt now shortcuts st = (False, st) \<and>
         cache (snd (save rt now shortcuts st)) = cache st \<and>
         item (snd (save rt now shortcuts st)) = item st \<and>
         load rt now' (snd (save rt now shortcuts st)) = load rt now' st \<and>
         (\<forall>c. cache st = Some c \<longrightarrow> fst (load rt now' (snd (save rt now shortcuts st))) = c) \<and>
         (\<forall>v st0. \<not> fst (save rt now v st0) \<longrightarrow> save rt now v st0 = (False, st0))"
  using assms by (simp add: save_refused load_cached save_False)

theorem C4_witness:
  "validateShortcuts rt0 ''2024-05-05T10:00:00.000Z'' (JArr [to_js (sample ''b'' 0)])
     = Some [sample ''b'' 0] \<and>
   setItem_throws full_store (JSON_stringify rt0 (JArr (map to_js
      (reindexPositions [sample ''b'' 0])))) \<and>
   save rt0 ''2024-05-05T10:00:00.000Z'' (JArr [to_js (sample ''b'' 0)]) full_store = (False, full_store) \<and>
   fst (load rt0 ''2024-05-05T10:00:01.000Z''
      (snd (save rt0 ''2024-05-05T10:00:00.000Z'' (JArr [to_js (sample ''b'' 0)]) full_store)))
     = [sample ''a'' 0]"
proof -
  have v: "validateShortcuts rt0 ''2024-05-05T10:00:00.000Z'' (JArr [to_js (sample ''b'' 0)])
     = Some [sample ''b'' 0]"
    by code_simp
  have h: "setItem_throws full_store (JSON_stringify rt0 (JArr (map to_js
      (reindexPositions [sample ''b'' 0]))))"
    by (simp add: full_store_def quota_exceeded_def)
  have c: "cache full_store = Some [sample ''a'' 0]"
    by code_simp
  show ?thesis
    using v h c C4_save_write_failure [OF v h, of "''2024-05-05T10:00:01.000Z''"] by blast
qed

lemma validateShortcuts_Nil [simp]: "validateShortcuts rt now (JArr []) = Some []"
  by (simp add: validateShortcuts_def)

lemma reindexPositions_Nil [simp]: "reindexPositions [] = []"
  by (simp add: reindexPositions_eq)

lemma load_failed_result:
  "fst (load_failed rt now st) = [] \<and> cache (snd (load_failed rt now st)) = Some []"
  by (simp add: load_failed_def save_def Let_def dispatchChangeEvent_def)

lemma load_cache: "cache (snd (load rt now st)) = Some (fst (load rt now st))"
  by (simp add: load_def load_failed_result Let_def split: option.splits)

lemma save_cache:
  "save rt now v st = (True, st') \<Longrightarrow>
   \<exists>validated. validateShortcuts rt now v = Some validated \<and>
     cache st' = Some (reindexPositions validated) \<and>
     item st' = Some (JSON_stringify rt (JArr (map to_js (reindexPositions validated)))) \<and>
     events st' = events st @ [reindexPositions validated] \<and>
     getItem_throws st' = getItem_throws st \<and> setItem_throws st' = setItem_throws st"
  by (auto simp: save_def Let_def dispatchChangeEvent_def split: if_splits option.splits)

text \<open>
  Claim C2 (load after save), as amended: for well-formed records, after a successful
  \<^verbatim>\<open>save(records)\<close> the cache, the stored text and the result of \<^verbatim>\<open>load()\<close> are the
  records in ascending order of position (a stable sort), renumbered from 0, every
  other property unchanged, \<^verbatim>\<open>updated_at\<close> included. The result is \<^verbatim>\<open>records\<close> up to the
  positions when the positions of \<^verbatim>\<open>records\<close> already ascend along the array.
\<close>

theorem C2_load_after_save:
  assumes wf: "\<forall>s \<in> set records. well_formed s"
    and ok: "save rt now (JArr (map to_js records)) st = (True, st')"
  shows "load rt now' st' = (reindexPositions records, st') \<and>
         cache st' = Some (reindexPositions records) \<and>
         item st' = Some (JSON_stringify rt (JArr (map to_js (reindexPositions records)))) \<and>
         map position (reindexPositions records) = map index_num [0..<length records] \<and>
         map (\<lambda>s. s\<lparr>position := Fin 0\<rparr>) (reindexPositions records) =
           map (\<lambda>s. s\<lparr>position := Fin 0\<rparr>) (sort_key position records) \<and>
         (sorted (map position records) \<longrightarrow>
            map (\<lambda>s. s\<lparr>position := Fin 0\<rparr>) (fst (load rt now' st')) =
              map (\<lambda>s. s\<lparr>position := Fin 0\<rparr>) records)"
proof -
  have v: "validateShortcuts rt now (JArr (map to_js records)) = Some records"
    using wf by (rule validateShortcuts_well_formed)
  have c: "cache st' = Some (reindexPositions records)"
    and i: "item st' = Some (JSON_stringify rt (JArr (map to_js (reindexPositions records))))"
    using save_cache [OF ok] by (simp_all add: v)
  have l: "load rt now' st' = (reindexPositions records, st')"
    using c by (rule load_cached)
  have e: "map (\<lambda>s. s\<lparr>position := Fin 0\<rparr>) (reindexPositions records) =
           map (\<lambda>s. s\<lparr>position := Fin 0\<rparr>) (sort_key position records)"
    by (rule erase_reindexPositions)
  have s: "sorted (map position records) \<Longrightarrow>
            map (\<lambda>s. s\<lparr>position := Fin 0\<rparr>) (fst (load rt now' st')) =
              map (\<lambda>s. s\<lparr>position := Fin 0\<rparr>) records"
    using e by (simp add: l sort_key_id_if_sorted)
  show ?thesis
    using c i l e s positions_reindexPositions [of records] by blast
qed

lemma well_formed_sample: "well_formed (sample (c # cs) p)"
  by (simp add: well_formed_def sample_def label_ok_def is_ws_def)

lemma save_fresh_well_formed:
  "\<forall>s \<in> set xs. well_formed s \<Longrightarrow> fst (save rt now (JArr (map to_js xs)) fresh_store)"
  by (simp add: save_True_iff validateShortcuts_well_formed fresh_store_def
      new_ShortcutDataStore_def unlimited_def)

theorem C2_witness:
  "list_all well_formed [sample ''a'' 0, sample ''b'' 4] \<and>
   fst (save rt0 ''2024-05-05T10:00:00.000Z'' (JArr (map to_js [sample ''a'' 0, sample ''b'' 4]))
          fresh_store) \<and>
   sorted (map position [sample ''a'' 0, sample ''b'' 4]) \<and>
   fst (load rt0 ''2024-05-05T10:00:01.000Z''
     (snd (save rt0 ''2024-05-05T10:00:00.000Z'' (JArr (map to_js [sample ''a'' 0, sample ''b'' 4]))
          fresh_store))) = [sample ''a'' 0, sample ''b'' 1]"
proof -
  let ?recs = "[sample ''a'' 0, sample ''b'' 4]"
  let ?sv = "save rt0 ''2024-05-05T10:00:00.000Z'' (JArr (map to_js ?recs)) fresh_store"
  have wf: "\<forall>s \<in> set ?recs. well_formed s"
    by (simp add: well_formed_sample)
  have t: "fst ?sv"
    using wf by (rule save_fresh_well_formed)
  then have ok: "?sv = (True, snd ?sv)"
    by (cases ?sv) simp
  have srt: "sorted (map position ?recs)"
    by (simp add: sample_def)
  have r: "reindexPositions ?recs = [sample ''a'' 0, sample ''b'' 1]"
    by (simp add: reindexPositions_eq sample_def index_num_def)
  show ?thesis
    using wf t srt C2_load_after_save [OF wf ok, of "''2024-05-05T10:00:01.000Z''"]
    by (simp add: r)
qed

text \<open>
  The claim as stated fails for records whose positions do not ascend along the array:
  the sequence comes back in another order, so it differs from \<^verbatim>\<open>records\<close> even when
  \<^verbatim>\<open>position\<close> and \<^verbatim>\<open>updated_at\<close> are disregarded.
\<close>

theorem C2_order_counterexample:
  "list_all well_formed [sample ''a'' 1, sample ''b'' 0] \<and>
   fst (save rt0 ''2024-05-05T10:00:00.000Z'' (JArr (map to_js [sample ''a'' 1, sample ''b'' 0]))
          fresh_store) \<and>
   map (\<lambda>s. s\<lparr>position := Fin 0, updated_at := JNull\<rparr>)
     (fst (load rt0 ''2024-05-05T10:00:01.000Z''
       (snd (save rt0 ''2024-05-05T10:00:00.000Z'' (JArr (map to_js [sample ''a'' 1, sample ''b'' 0]))
          fresh_store))))
   \<noteq> map (\<lambda>s. s\<lparr>position := Fin 0, updated_at := JNull\<rparr>) [sample ''a'' 1, sample ''b'' 0]"
proof -
  let ?recs = "[sample ''a'' 1, sample ''b'' 0]"
  let ?sv = "save rt0 ''2024-05-05T10:00:00.000Z'' (JArr (map to_js ?recs)) fresh_store"
  have wf: "\<forall>s \<in> set ?recs. well_formed s"
    by (simp add: well_formed_sample)
  have v: "validateShortcuts rt0 ''2024-05-05T10:00:00.000Z'' (JArr (map to_js ?recs)) = Some ?recs"
    using wf by (rule validateShortcuts_well_formed)
  have r: "reindexPositions ?recs = [sample ''b'' 0, sample ''a'' 1]"
    by (simp add: reindexPositions_eq sample_def index_num_def)
  have t: "fst ?sv"
    using wf by (rule save_fresh_well_formed)
  then have ok: "?sv = (True, snd ?sv)"
    by (cases ?sv) simp
  from save_cache [OF ok] obtain pre
    where "validateShortcuts rt0 ''2024-05-05T10:00:00.000Z'' (JArr (map to_js ?recs)) = Some pre"
      and "cache (snd ?sv) = Some (reindexPositions pre)"
    by blast
  then have c: "cache (snd ?sv) = Some [sample ''b'' 0, sample ''a'' 1]"
    unfolding v r [symmetric] by simp
  have l: "fst (load rt0 ''2024-05-05T10:00:01.000Z'' (snd ?sv)) = [sample ''b'' 0, sample ''a'' 1]"
    using load_cached [OF c, of rt0 "''2024-05-05T10:00:01.000Z''"] by simp
  have ne: "map (\<lambda>s. s\<lparr>position := Fin 0, updated_at := JNull\<rparr>) [sample ''b'' 0, sample ''a'' 1]
      \<noteq> map (\<lambda>s. s\<lparr>position := Fin 0, updated_at := JNull\<rparr>) ?recs"
    by (simp add: sample_def)
  have wfl: "list_all well_formed ?recs"
    by (simp add: well_formed_sample)
  show ?thesis
    unfolding l using t wfl ne by blast
qed

subsection \<open>Reindexing on every save\<close>


lemma map_reindexPositions:
  assumes "\<And>s i. f (s\<lparr>position := i\<rparr>) = f s"
  shows "map f (reindexPositions xs) = map f (sort_key position xs)"
proof -
  have "map f (map (\<lambda>s. s\<lparr>position := Fin 0\<rparr>) (reindexPositions xs)) =
        map f (map (\<lambda>s. s\<lparr>position := Fin 0\<rparr>) (sort_key position xs))"
    by (simp only: erase_reindexPositions)
  then show ?thesis by (simp add: comp_def assms)
qed

lemma reindexPositions_pred:
  assumes "\<And>s i. P (s\<lparr>position := i\<rparr>) = P s"
  shows "(\<exists>s \<in> set (reindexPositions xs). P s) = (\<exists>s \<in> set xs. P s)"
proof -
  have "map P (reindexPositions xs) = map P (sort_key position xs)"
    using assms by (rule map_reindexPositions)
  then have "set (map P (reindexPositions xs)) = set (map P (sort_key position xs))"
    by simp
  then have "P ` set (reindexPositions xs) = P ` set xs"
    by simp
  then show ?thesis
    by (metis (mono_tags) image_iff)
qed

lemma reindexPositions_all:
  assumes "\<And>s i. P (s\<lparr>position := i\<rparr>) = P s"
  shows "(\<forall>s \<in> set (reindexPositions xs). P s) = (\<forall>s \<in> set xs. P s)"
  using reindexPositions_pred [of "\<lambda>s. \<not> P s" xs] assms by blast

lemma targets_of_reindexPositions:
  "targets_of (reindexPositions xs) = targets_of (sort_key position xs)"
  unfolding targets_of_def by (rule map_reindexPositions) simp




text \<open>What validation returns, when it returns, entry by entry.\<close>

lemma validateShortcuts_array:
  "validateShortcuts rt now (JArr xs) = Some rs \<longleftrightarrow>
   list_all2 (\<lambda>x r. repair rt now x = Some r) (filter keeps xs) rs"
  by (simp add: validateShortcuts_def those_eq_Some)

lemma validateShortcuts_cases:
  assumes "validateShortcuts rt now v = Some rs"
  obtains xs where "v = JArr xs"
      and "list_all2 (\<lambda>x r. repair rt now x = Some r) (filter keeps xs) rs"
    | "rs = []" and "\<not> isArray v"
  using assms by (cases v) (auto simp: validateShortcuts_array, auto simp: validateShortcuts_def)

lemma list_all2_set2: "list_all2 P xs ys \<Longrightarrow> y \<in> set ys \<Longrightarrow> \<exists>x \<in> set xs. P x y"
  by (induction xs ys rule: list_all2_induct) auto

lemma validateShortcuts_member:
  assumes "validateShortcuts rt now v = Some rs" and "r \<in> set rs"
  obtains x where "keeps x" and "repair rt now x = Some r"
  using assms(1)
proof (cases rule: validateShortcuts_cases)
  case (1 xs)
  then show ?thesis
    using list_all2_set2 [OF 1(2) assms(2)] that by auto
next
  case 2
  then show ?thesis using assms(2) by simp
qed

lemma keeps_target: "keeps x \<Longrightarrow> repair rt now x = Some r \<Longrightarrow> truthy (target (action r))"
  by (auto simp: keeps_def repair_def js_get_opt_def split: if_splits option.splits)

lemma repair_id_truthy: "repair rt now x = Some r \<Longrightarrow> truthy (id_js r)"
  by (auto simp: repair_def default_id_def split: if_splits option.splits)

lemma repair_label: "repair rt now x = Some r \<Longrightarrow> label r \<noteq> [] \<and> length (label r) \<le> 20"
  by (auto simp: repair_def validateLabel_nonempty validateLabel_length split: option.splits)






lemma set_reindexPositions_targets:
  "set (targets_of (reindexPositions xs)) = set (targets_of xs)"
  by (simp add: targets_of_reindexPositions) (simp add: targets_of_def)


lemma sorted_dense: "dense xs \<Longrightarrow> sorted (map position xs)"
  by (simp add: dense_def sorted_index_upt)


















subsection \<open>The first load\<close>

lemma load_failed_eq:
  "load_failed rt now st =
     ([], if setItem_throws st (JSON_stringify rt (JArr [])) then st\<lparr>cache := Some []\<rparr>
          else st\<lparr>item := Some (JSON_stringify rt (JArr [])), cache := Some [],
                  events := events st @ [[]]\<rparr>)"
  by (simp add: load_failed_def save_def Let_def dispatchChangeEvent_def)

text \<open>
  Claim C5 (load fail-safe), as amended: the first \<^verbatim>\<open>load()\<close> returns the empty sequence,
  and caches it, when the stored value is missing or the empty string, when it parses to
  something that is not an array, and when reading, parsing or a conversion of the
  validation raises. Only in the last case does \<^verbatim>\<open>load\<close> write: the text of the empty
  array replaces the stored value if the storage accepts it. In the first two cases the
  stored value stays as it is. In every other case \<^verbatim>\<open>load\<close> returns and caches the
  validated records and writes nothing.
\<close>

theorem C5_first_load:
  assumes "cache st = None"
  shows "(\<not> getItem_throws st \<and> (item st = None \<or> item st = Some []) \<longrightarrow>
            load rt now st = ([], st\<lparr>cache := Some []\<rparr>)) \<and>
         (\<not> getItem_throws st \<and> item st = Some raw \<and> raw \<noteq> [] \<and>
          JSON_parse rt raw = Some v \<and> \<not> isArray v \<longrightarrow>
            load rt now st = ([], st\<lparr>cache := Some []\<rparr>)) \<and>
         (getItem_throws st \<or> (item st = Some raw \<and> raw \<noteq> [] \<and> JSON_parse rt raw = None) \<longrightarrow>
            fst (load rt now st) = [] \<and>
            cache (snd (load rt now st)) = Some [] \<and>
            item (snd (load rt now st)) =
              (if setItem_throws st (JSON_stringify rt (JArr [])) then item st
               else Some (JSON_stringify rt (JArr [])))) \<and>
         (\<not> getItem_throws st \<and> item st = Some raw \<and> raw \<noteq> [] \<and>
          JSON_parse rt raw = Some v \<and> isArray v \<and> validateShortcuts rt now v = None \<longrightarrow>
            fst (load rt now st) = [] \<and>
            cache (snd (load rt now st)) = Some [] \<and>
            item (snd (load rt now st)) =
              (if setItem_throws st (JSON_stringify rt (JArr [])) then item st
               else Some (JSON_stringify rt (JArr [])))) \<and>
         (\<not> getItem_throws st \<and> item st = Some raw \<and> raw \<noteq> [] \<and>
          JSON_parse rt raw = Some v \<and> isArray v \<and> validateShortcuts rt now v = Some rs \<longrightarrow>
            load rt now st = (rs, st\<lparr>cache := Some rs\<rparr>))"
  using assms by (auto simp: load_def load_failed_eq Let_def)

lemma parse_json_object: \<open>parse_json ''{"a":1}'' = Some (JObj [(''a'', JNum (Fin 1))])\<close>
  by code_simp

lemma parse_json_garbage: "parse_json ''{not json'' = None"
  by code_simp

lemma parse_json_raising:
  \<open>parse_json ''[{"action":{"target":"y"}},{"action":{"target":"x"},"label":{"toString":1}}]'' =
     Some (JArr [JObj [(''action'', JObj [(''target'', JStr ''y'')])],
                 JObj [(''label'', JObj [(''toString'', JNum (Fin 1))]),
                       (''action'', JObj [(''target'', JStr ''x'')])]])\<close>
  by code_simp

lemma validateShortcuts_raising:
  "validateShortcuts rt0 ''2024-05-05T10:00:00.000Z''
     (JArr [JObj [(''action'', JObj [(''target'', JStr ''y'')])],
            JObj [(''label'', JObj [(''toString'', JNum (Fin 1))]),
                  (''action'', JObj [(''target'', JStr ''x'')])]]) = None"
  by code_simp

lemma print_json_empty: "print_json (JArr []) = ''[]''"
  by simp

theorem C5_witness:
  \<open>cache fresh_store = None \<and>
   load rt0 ''2024-05-05T10:00:00.000Z'' fresh_store = ([], fresh_store\<lparr>cache := Some []\<rparr>) \<and>
   cache (store_with ''{"a":1}'') = None \<and>
   JSON_parse rt0 ''{"a":1}'' = Some (JObj [(''a'', JNum (Fin 1))]) \<and>
   load rt0 ''2024-05-05T10:00:00.000Z'' (store_with ''{"a":1}'') =
     ([], (store_with ''{"a":1}'')\<lparr>cache := Some []\<rparr>) \<and>
   cache (store_with ''{not json'') = None \<and>
   JSON_parse rt0 ''{not json'' = None \<and>
   fst (load rt0 ''2024-05-05T10:00:00.000Z'' (store_with ''{not json'')) = [] \<and>
   item (snd (load rt0 ''2024-05-05T10:00:00.000Z'' (store_with ''{not json''))) = Some ''[]'' \<and>
   fst (load rt0 ''2024-05-05T10:00:00.000Z'' (store_with
     ''[{"action":{"target":"y"}},{"action":{"target":"x"},"label":{"toString":1}}]'')) = [] \<and>
   item (snd (load rt0 ''2024-05-05T10:00:00.000Z'' (store_with
     ''[{"action":{"target":"y"}},{"action":{"target":"x"},"label":{"toString":1}}]''))) =
     Some ''[]''\<close>
proof -
  let ?t = \<open>''[{"action":{"target":"y"}},{"action":{"target":"x"},"label":{"toString":1}}]''\<close>
  let ?v = "JArr [JObj [(''action'', JObj [(''target'', JStr ''y'')])],
                 JObj [(''label'', JObj [(''toString'', JNum (Fin 1))]),
                       (''action'', JObj [(''target'', JStr ''x'')])]]"
  have c1: "cache fresh_store = None"
    and s1: "\<not> getItem_throws fresh_store \<and> (item fresh_store = None \<or> item fresh_store = Some [])"
    by (simp_all add: fresh_store_def new_ShortcutDataStore_def)
  have c2: \<open>cache (store_with ''{"a":1}'') = None\<close>
    and p2: \<open>JSON_parse rt0 ''{"a":1}'' = Some (JObj [(''a'', JNum (Fin 1))])\<close>
    and s2: \<open>\<not> getItem_throws (store_with ''{"a":1}'') \<and>
        item (store_with ''{"a":1}'') = Some ''{"a":1}'' \<and> ''{"a":1}'' \<noteq> [] \<and>
        \<not> isArray (JObj [(''a'', JNum (Fin 1))])\<close>
    by (simp_all add: store_with_def new_ShortcutDataStore_def rt0_def parse_json_object)
  have c3: "cache (store_with ''{not json'') = None"
    and p3: "JSON_parse rt0 ''{not json'' = None"
    and s3: "item (store_with ''{not json'') = Some ''{not json'' \<and> ''{not json'' \<noteq> [] \<and>
        \<not> setItem_throws (store_with ''{not json'') (JSON_stringify rt0 (JArr []))"
    and e3: "JSON_stringify rt0 (JArr []) = ''[]''"
    by (simp_all add: store_with_def new_ShortcutDataStore_def rt0_def parse_json_garbage
        unlimited_def)
  have c4: "cache (store_with ?t) = None"
    and p4: "JSON_parse rt0 ?t = Some ?v"
    and s4: "\<not> getItem_throws (store_with ?t) \<and> item (store_with ?t) = Some ?t \<and> ?t \<noteq> [] \<and>
        isArray ?v \<and> \<not> setItem_throws (store_with ?t) (JSON_stringify rt0 (JArr []))"
    by (simp_all add: store_with_def new_ShortcutDataStore_def rt0_def parse_json_raising
        unlimited_def)
  have v4: "validateShortcuts rt0 ''2024-05-05T10:00:00.000Z'' ?v = None"
    by (rule validateShortcuts_raising)
  have r4: "fst (load rt0 ''2024-05-05T10:00:00.000Z'' (store_with ?t)) = [] \<and>
      item (snd (load rt0 ''2024-05-05T10:00:00.000Z'' (store_with ?t))) = Some ''[]''"
    using c4 p4 s4 v4 e3 C5_first_load [OF c4, where rt = rt0 and now = "''2024-05-05T10:00:00.000Z''"
        and raw = ?t and v = ?v]
    by (simp del: fst_conv snd_conv)
  show ?thesis
    using c1 s1 C5_first_load [OF c1, where rt = rt0 and now = "''2024-05-05T10:00:00.000Z''"]
      c2 p2 s2 C5_first_load [OF c2, where rt = rt0 and now = "''2024-05-05T10:00:00.000Z''"
        and raw = \<open>''{"a":1}''\<close> and v = "JObj [(''a'', JNum (Fin 1))]"]
      c3 p3 s3 e3 C5_first_load [OF c3, where rt = rt0 and now = "''2024-05-05T10:00:00.000Z''"
        and raw = "''{not json''"] r4
    by (simp del: fst_conv snd_conv)
qed

text \<open>
  The claim as stated fails where the stored value is missing and where it is not an
  array: nothing is written, and the storage holds what it held.
\<close>

theorem C5_not_persisted_counterexample:
  \<open>fst (load rt0 ''2024-05-05T10:00:00.000Z'' fresh_store) = [] \<and>
   item (snd (load rt0 ''2024-05-05T10:00:00.000Z'' fresh_store)) = None \<and>
   fst (load rt0 ''2024-05-05T10:00:00.000Z'' (store_with ''{"a":1}'')) = [] \<and>
   item (snd (load rt0 ''2024-05-05T10:00:00.000Z'' (store_with ''{"a":1}''))) = Some ''{"a":1}'' \<and>
   JSON_stringify rt0 (JArr []) = ''[]''\<close>
  by (simp add: load_def fresh_store_def store_with_def new_ShortcutDataStore_def rt0_def
      parse_json_object Let_def)

subsection \<open>Import\<close>

lemma keeps_iff:
  "keeps x \<longleftrightarrow>
     (\<exists>kvs a t. x = JObj kvs \<and> map_of kvs ''action'' = Some (JObj a) \<and>
        map_of a ''target'' = Some t \<and> truthy t)"
proof (cases x)
  case (JObj kvs)
  show ?thesis
  proof (cases "map_of kvs ''action''")
    case None
    with JObj show ?thesis by (simp add: keeps_def js_get_opt_def)
  next
    case (Some a)
    with JObj show ?thesis
      by (cases a) (auto simp: keeps_def js_get_opt_def split: option.splits)
  qed
qed (simp_all add: keeps_def js_get_opt_def)

text \<open>\<open>repair\<close> returns the record that \<open>coerced\<close> describes, when there is one.\<close>

lemma repair_coerced: "repair rt now x = Some r \<longleftrightarrow> coerced rt now x r"
proof -
  obtain i l e a p v c u where r: "r = \<lparr>id_js = i, label = l, enabled = e, action = a,
      position = p, visible = v, created_at = c, updated_at = u\<rparr>"
    by (cases r) auto
  obtain ty ta where a: "a = \<lparr>type = ty, target = ta\<rparr>"
    by (cases a) auto
  show ?thesis
    unfolding r a
    by (auto simp: repair_def coerced_def default_id_def validateLabel_def number_or_def
        or_else_def Let_def split: option.splits)
qed

lemma validateShortcuts_coerced:
  "validateShortcuts rt now (JArr xs) = Some rs \<longleftrightarrow>
   list_all2 (coerced rt now) (filter keeps xs) rs"
  by (simp add: validateShortcuts_array repair_coerced)

lemma validateShortcuts_raises:
  "validateShortcuts rt now (JArr xs) = None \<longleftrightarrow>
   (\<exists>x \<in> set xs. keeps x \<and>
      ((\<not> truthy (js_get x ''id'') \<and> to_string rt (js_get (js_get x ''action'') ''target'') = None) \<or>
       (truthy (js_get x ''label'') \<and> to_string rt (js_get x ''label'') = None) \<or>
       to_string rt (js_get x ''position'') = None))"
  by (auto simp: validateShortcuts_def those_eq_None repair_raises)

lemma repair_valid:
  "keeps x \<Longrightarrow> repair rt now x = Some r \<Longrightarrow>
   truthy (id_js r) \<and> label r \<noteq> [] \<and> length (label r) \<le> 20 \<and> truthy (type (action r)) \<and>
   truthy (target (action r)) \<and> (now \<noteq> [] \<longrightarrow> truthy (created_at r) \<and> truthy (updated_at r))"
  using keeps_target [of x rt now r] repair_id_truthy [of rt now x r] repair_label [of rt now x r]
  by (auto simp: repair_def or_else_def split: option.splits)

lemma validateShortcuts_valid:
  "validateShortcuts rt now v = Some rs \<Longrightarrow> s \<in> set rs \<Longrightarrow>
   truthy (id_js s) \<and> label s \<noteq> [] \<and> length (label s) \<le> 20 \<and> truthy (type (action s)) \<and>
   truthy (target (action s)) \<and> (now \<noteq> [] \<longrightarrow> truthy (created_at s) \<and> truthy (updated_at s))"
proof -
  assume "validateShortcuts rt now v = Some rs" and "s \<in> set rs"
  then obtain x where "keeps x" and "repair rt now x = Some s"
    by (rule validateShortcuts_member)
  then show ?thesis by (rule repair_valid)
qed

lemma validateShortcuts_not_array: "\<not> isArray v \<Longrightarrow> validateShortcuts rt now v = Some []"
  by (cases v) (simp_all add: validateShortcuts_def)

lemma import_example_validated:
  "validateShortcuts rt now
     (JArr [JObj [(''bogus'', JNum (Fin 1))], JObj [(''action'', JObj [(''target'', JStr ''x'')])]]) =
   Some [\<lparr>id_js = JStr ''shortcut-x'', label = ''XX'', enabled = False,
     action = \<lparr>type = JStr ''modal'', target = JStr ''x''\<rparr>, position = Fin 0, visible = True,
     created_at = JStr now, updated_at = JStr now\<rparr>]"
  by (simp add: validateShortcuts_def keeps_def repair_def js_get_opt_def or_else_def
      validateLabel_def number_or_def default_id_def)

lemma reindexPositions_single: "position r = Fin 0 \<Longrightarrow> reindexPositions [r] = [r]"
  by (simp add: reindexPositions_eq index_num_def)

text \<open>
  Claim C8 (import repair), as amended. \<^verbatim>\<open>importData\<close> returns \<^verbatim>\<open>false\<close> and leaves the state
  as it is when the text does not parse; otherwise it is \<^verbatim>\<open>save\<close> of the parsed value.
  A value that is not an array gives no record. Of an array, validation keeps exactly the
  entries that are objects whose \<^verbatim>\<open>action\<close> is an object with a truthy \<^verbatim>\<open>target\<close> and
  repairs each of them property by property (\<open>coerced\<close>), so that every
  record has a truthy id, type and target and a label of 1 to 20 characters; then the
  records are sorted, renumbered, written, cached and dispatched if the storage accepts
  the text. But validation raises when, for one entry that it keeps, the label, the
  position or, the id being falsy, the target cannot be converted (an object that has a
  property \<^verbatim>\<open>toString\<close>, or an array that holds one): then nothing is repaired,
  \<^verbatim>\<open>importData\<close> returns \<^verbatim>\<open>false\<close> and the state is as it was, and so it is whenever
  \<^verbatim>\<open>importData\<close> returns \<^verbatim>\<open>false\<close>. For the text of the example, on a storage that accepts
  the write, one record is written, cached and dispatched: target \<^verbatim>\<open>"x"\<close>, label \<^verbatim>\<open>"XX"\<close>,
  disabled, position 0.
\<close>

theorem C8_importData:
  "(JSON_parse rt jsonString = None \<longrightarrow> importData rt now jsonString st = (False, st)) \<and>
   (JSON_parse rt jsonString = Some data \<longrightarrow>
      importData rt now jsonString st = save rt now data st) \<and>
   (\<not> fst (importData rt now jsonString st) \<longrightarrow> importData rt now jsonString st = (False, st)) \<and>
   (JSON_parse rt jsonString = Some data \<and> validateShortcuts rt now data = None \<longrightarrow>
      importData rt now jsonString st = (False, st)) \<and>
   (JSON_parse rt jsonString = Some data \<and> validateShortcuts rt now data = Some rs \<and>
    \<not> setItem_throws st (JSON_stringify rt (JArr (map to_js (reindexPositions rs)))) \<longrightarrow>
      importData rt now jsonString st =
        (True, st\<lparr>item := Some (JSON_stringify rt (JArr (map to_js (reindexPositions rs)))),
                  cache := Some (reindexPositions rs),
                  events := events st @ [reindexPositions rs]\<rparr>)) \<and>
   (\<not> isArray data \<longrightarrow> validateShortcuts rt now data = Some []) \<and>
   (validateShortcuts rt now (JArr xs) = Some rs \<longleftrightarrow>
      list_all2 (coerced rt now) (filter keeps xs) rs) \<and>
   (validateShortcuts rt now (JArr xs) = None \<longleftrightarrow>
      (\<exists>x \<in> set xs. keeps x \<and>
         ((\<not> truthy (js_get x ''id'') \<and>
           to_string rt (js_get (js_get x ''action'') ''target'') = None) \<or>
          (truthy (js_get x ''label'') \<and> to_string rt (js_get x ''label'') = None) \<or>
          to_string rt (js_get x ''position'') = None))) \<and>
   (to_string rt (JObj kvs) = None \<longleftrightarrow> map_of kvs ''toString'' \<noteq> None) \<and>
   (to_string rt (JArr ys) = None \<longleftrightarrow>
      (\<exists>y \<in> set ys. y \<noteq> JNull \<and> y \<noteq> JUndefined \<and> to_string rt y = None)) \<and>
   (keeps x \<longleftrightarrow>
      (\<exists>kvs a t. x = JObj kvs \<and> map_of kvs ''action'' = Some (JObj a) \<and>
         map_of a ''target'' = Some t \<and> truthy t)) \<and>
   (validateShortcuts rt now data = Some rs \<longrightarrow>
      (\<forall>s \<in> set rs.
         truthy (id_js s) \<and> label s \<noteq> [] \<and> length (label s) \<le> 20 \<and>
         truthy (type (action s)) \<and> truthy (target (action s)))) \<and>
   (JSON_parse rt jsonString =
      Some (JArr [JObj [(''bogus'', JNum (Fin 1))], JObj [(''action'', JObj [(''target'', JStr ''x'')])]]) \<and>
    \<not> setItem_throws st (JSON_stringify rt (JArr [to_js
        \<lparr>id_js = JStr ''shortcut-x'', label = ''XX'', enabled = False,
         action = \<lparr>type = JStr ''modal'', target = JStr ''x''\<rparr>, position = Fin 0, visible = True,
         created_at = JStr now, updated_at = JStr now\<rparr>])) \<longrightarrow>
      importData rt now jsonString st =
        (True, st\<lparr>item := Some (JSON_stringify rt (JArr [to_js
                  \<lparr>id_js = JStr ''shortcut-x'', label = ''XX'', enabled = False,
                   action = \<lparr>type = JStr ''modal'', target = JStr ''x''\<rparr>, position = Fin 0,
                   visible = True, created_at = JStr now, updated_at = JStr now\<rparr>])),
               cache := Some [\<lparr>id_js = JStr ''shortcut-x'', label = ''XX'', enabled = False,
                   action = \<lparr>type = JStr ''modal'', target = JStr ''x''\<rparr>, position = Fin 0,
                   visible = True, created_at = JStr now, updated_at = JStr now\<rparr>],
               events := events st @ [[\<lparr>id_js = JStr ''shortcut-x'', label = ''XX'',
                   enabled = False, action = \<lparr>type = JStr ''modal'', target = JStr ''x''\<rparr>,
                   position = Fin 0, visible = True, created_at = JStr now,
                   updated_at = JStr now\<rparr>]]\<rparr>))"
proof -
  have 1: "JSON_parse rt jsonString = None \<longrightarrow> importData rt now jsonString st = (False, st)"
    and 2: "JSON_parse rt jsonString = Some data \<longrightarrow>
      importData rt now jsonString st = save rt now data st"
    by (simp_all add: importData_def)
  have 3: "\<not> fst (importData rt now jsonString st) \<longrightarrow>
      importData rt now jsonString st = (False, st)"
    by (auto simp: importData_def save_False split: option.splits)
  have 4: "JSON_parse rt jsonString = Some data \<and> validateShortcuts rt now data = None \<longrightarrow>
      importData rt now jsonString st = (False, st)"
    by (simp add: importData_def save_raised)
  have 5: "JSON_parse rt jsonString = Some data \<and> validateShortcuts rt now data = Some rs \<and>
    \<not> setItem_throws st (JSON_stringify rt (JArr (map to_js (reindexPositions rs)))) \<longrightarrow>
      importData rt now jsonString st =
        (True, st\<lparr>item := Some (JSON_stringify rt (JArr (map to_js (reindexPositions rs)))),
                  cache := Some (reindexPositions rs),
                  events := events st @ [reindexPositions rs]\<rparr>)"
    by (simp add: importData_def save_accepted)
  have 6: "\<not> isArray data \<longrightarrow> validateShortcuts rt now data = Some []"
    by (simp add: validateShortcuts_not_array)
  have 7: "validateShortcuts rt now data = Some rs \<longrightarrow>
      (\<forall>s \<in> set rs.
         truthy (id_js s) \<and> label s \<noteq> [] \<and> length (label s) \<le> 20 \<and>
         truthy (type (action s)) \<and> truthy (target (action s)))"
    using validateShortcuts_valid [of rt now data rs] by blast
  have 8: "JSON_parse rt jsonString =
      Some (JArr [JObj [(''bogus'', JNum (Fin 1))], JObj [(''action'', JObj [(''target'', JStr ''x'')])]]) \<and>
    \<not> setItem_throws st (JSON_stringify rt (JArr [to_js
        \<lparr>id_js = JStr ''shortcut-x'', label = ''XX'', enabled = False,
         action = \<lparr>type = JStr ''modal'', target = JStr ''x''\<rparr>, position = Fin 0, visible = True,
         created_at = JStr now, updated_at = JStr now\<rparr>])) \<longrightarrow>
      importData rt now jsonString st =
        (True, st\<lparr>item := Some (JSON_stringify rt (JArr [to_js
                  \<lparr>id_js = JStr ''shortcut-x'', label = ''XX'', enabled = False,
                   action = \<lparr>type = JStr ''modal'', target = JStr ''x''\<rparr>, position = Fin 0,
                   visible = True, created_at = JStr now, updated_at = JStr now\<rparr>])),
               cache := Some [\<lparr>id_js = JStr ''shortcut-x'', label = ''XX'', enabled = False,
                   action = \<lparr>type = JStr ''modal'', target = JStr ''x''\<rparr>, position = Fin 0,
                   visible = True, created_at = JStr now, updated_at = JStr now\<rparr>],
               events := events st @ [[\<lparr>id_js = JStr ''shortcut-x'', label = ''XX'',
                   enabled = False, action = \<lparr>type = JStr ''modal'', target = JStr ''x''\<rparr>,
                   position = Fin 0, visible = True, created_at = JStr now,
                   updated_at = JStr now\<rparr>]]\<rparr>)"
    by (simp add: importData_def save_def Let_def dispatchChangeEvent_def
        import_example_validated reindexPositions_single del: validateShortcuts_Nil)
  show ?thesis
    using 1 2 3 4 5 6 validateShortcuts_coerced [of rt now xs rs]
      validateShortcuts_raises [of rt now xs] to_string_object [of rt kvs]
      to_string_array [of rt ys] keeps_iff [of x] 7 8
    by blast
qed

lemma parse_json_example:
  \<open>parse_json ''[{"bogus":1},{"action":{"target":"x"}}]'' =
     Some (JArr [JObj [(''bogus'', JNum (Fin 1))], JObj [(''action'', JObj [(''target'', JStr ''x'')])]])\<close>
  by code_simp

lemma print_json_example:
  \<open>print_json (JArr [to_js
        \<lparr>id_js = JStr ''shortcut-x'', label = ''XX'', enabled = False,
         action = \<lparr>type = JStr ''modal'', target = JStr ''x''\<rparr>, position = Fin 0, visible = True,
         created_at = JStr ''2024-05-05T10:00:00.000Z'',
         updated_at = JStr ''2024-05-05T10:00:00.000Z''\<rparr>]) =
   ''[{"id":"shortcut-x","label":"XX","enabled":false,"action":{"type":"modal","target":"x"},"position":0,"visible":true,"created_at":"2024-05-05T10:00:00.000Z","updated_at":"2024-05-05T10:00:00.000Z"}]''\<close>
  by code_simp

theorem C8_witness:
  \<open>JSON_parse rt0 ''{not json'' = None \<and>
   importData rt0 ''2024-05-05T10:00:00.000Z'' ''{not json'' fresh_store = (False, fresh_store) \<and>
   JSON_parse rt0 ''[{"bogus":1},{"action":{"target":"x"}}]'' =
     Some (JArr [JObj [(''bogus'', JNum (Fin 1))], JObj [(''action'', JObj [(''target'', JStr ''x'')])]]) \<and>
   fst (importData rt0 ''2024-05-05T10:00:00.000Z'' ''[{"bogus":1},{"action":{"target":"x"}}]''
     fresh_store) \<and>
   cache (snd (importData rt0 ''2024-05-05T10:00:00.000Z''
       ''[{"bogus":1},{"action":{"target":"x"}}]'' fresh_store)) =
     Some [\<lparr>id_js = JStr ''shortcut-x'', label = ''XX'', enabled = False,
            action = \<lparr>type = JStr ''modal'', target = JStr ''x''\<rparr>, position = Fin 0, visible = True,
            created_at = JStr ''2024-05-05T10:00:00.000Z'',
            updated_at = JStr ''2024-05-05T10:00:00.000Z''\<rparr>] \<and>
   item (snd (importData rt0 ''2024-05-05T10:00:00.000Z''
       ''[{"bogus":1},{"action":{"target":"x"}}]'' fresh_store)) =
     Some ''[{"id":"shortcut-x","label":"XX","enabled":false,"action":{"type":"modal","target":"x"},"position":0,"visible":true,"created_at":"2024-05-05T10:00:00.000Z","updated_at":"2024-05-05T10:00:00.000Z"}]'' \<and>
   coerced rt0 ''2024-05-05T10:00:00.000Z'' (JObj [(''action'', JObj [(''target'', JStr ''x'')])])
     \<lparr>id_js = JStr ''shortcut-x'', label = ''XX'', enabled = False,
      action = \<lparr>type = JStr ''modal'', target = JStr ''x''\<rparr>, position = Fin 0, visible = True,
      created_at = JStr ''2024-05-05T10:00:00.000Z'',
      updated_at = JStr ''2024-05-05T10:00:00.000Z''\<rparr> \<and>
   JSON_parse rt0
       ''[{"action":{"target":"y"}},{"action":{"target":"x"},"label":{"toString":1}}]'' =
     Some (JArr [JObj [(''action'', JObj [(''target'', JStr ''y'')])],
                 JObj [(''label'', JObj [(''toString'', JNum (Fin 1))]),
                       (''action'', JObj [(''target'', JStr ''x'')])]]) \<and>
   validateShortcuts rt0 ''2024-05-05T10:00:00.000Z''
     (JArr [JObj [(''action'', JObj [(''target'', JStr ''y'')])],
            JObj [(''label'', JObj [(''toString'', JNum (Fin 1))]),
                  (''action'', JObj [(''target'', JStr ''x'')])]]) = None \<and>
   importData rt0 ''2024-05-05T10:00:00.000Z''
       ''[{"action":{"target":"y"}},{"action":{"target":"x"},"label":{"toString":1}}]'' x_store =
     (False, x_store)\<close>
proof -
  let ?x = "\<lparr>id_js = JStr ''shortcut-x'', label = ''XX'', enabled = False,
            action = \<lparr>type = JStr ''modal'', target = JStr ''x''\<rparr>, position = Fin 0, visible = True,
            created_at = JStr ''2024-05-05T10:00:00.000Z'',
            updated_at = JStr ''2024-05-05T10:00:00.000Z''\<rparr>"
  let ?t = \<open>''[{"action":{"target":"y"}},{"action":{"target":"x"},"label":{"toString":1}}]''\<close>
  let ?v = "JArr [JObj [(''action'', JObj [(''target'', JStr ''y'')])],
                 JObj [(''label'', JObj [(''toString'', JNum (Fin 1))]),
                       (''action'', JObj [(''target'', JStr ''x'')])]]"
  let ?e = "JArr [JObj [(''bogus'', JNum (Fin 1))], JObj [(''action'', JObj [(''target'', JStr ''x'')])]]"
  have g: "JSON_parse rt0 ''{not json'' = None"
    by (simp add: rt0_def parse_json_garbage)
  have p: \<open>JSON_parse rt0 ''[{"bogus":1},{"action":{"target":"x"}}]'' = Some ?e\<close>
    by (simp add: rt0_def parse_json_example)
  have w: "\<not> setItem_throws fresh_store (JSON_stringify rt0 (JArr [to_js ?x]))"
    by (simp add: fresh_store_def new_ShortcutDataStore_def unlimited_def)
  have t: \<open>JSON_stringify rt0 (JArr [to_js ?x]) =
     ''[{"id":"shortcut-x","label":"XX","enabled":false,"action":{"type":"modal","target":"x"},"position":0,"visible":true,"created_at":"2024-05-05T10:00:00.000Z","updated_at":"2024-05-05T10:00:00.000Z"}]''\<close>
    using print_json_example by (simp add: rt0_def)
  have 1: "importData rt0 ''2024-05-05T10:00:00.000Z'' ''{not json'' fresh_store = (False, fresh_store)"
    using g C8_importData [where rt = rt0 and jsonString = "''{not json''" and st = fresh_store
        and now = "''2024-05-05T10:00:00.000Z''"]
    by blast
  have 2: \<open>importData rt0 ''2024-05-05T10:00:00.000Z''
       ''[{"bogus":1},{"action":{"target":"x"}}]'' fresh_store =
     (True, fresh_store\<lparr>item := Some (JSON_stringify rt0 (JArr [to_js ?x])),
                       cache := Some [?x], events := events fresh_store @ [[?x]]\<rparr>)\<close>
    using p w C8_importData [where rt = rt0
        and jsonString = \<open>''[{"bogus":1},{"action":{"target":"x"}}]''\<close> and st = fresh_store
        and now = "''2024-05-05T10:00:00.000Z''"]
    by blast
  have ve: "validateShortcuts rt0 ''2024-05-05T10:00:00.000Z'' ?e = Some [?x]"
    by (rule import_example_validated)
  have k: "filter keeps [JObj [(''bogus'', JNum (Fin 1))], JObj [(''action'', JObj [(''target'', JStr ''x'')])]]
      = [JObj [(''action'', JObj [(''target'', JStr ''x'')])]]"
    by (simp add: keeps_def js_get_opt_def)
  have 3: "coerced rt0 ''2024-05-05T10:00:00.000Z''
      (JObj [(''action'', JObj [(''target'', JStr ''x'')])]) ?x"
    using ve C8_importData [where rt = rt0 and now = "''2024-05-05T10:00:00.000Z''"
        and xs = "[JObj [(''bogus'', JNum (Fin 1))], JObj [(''action'', JObj [(''target'', JStr ''x'')])]]"
        and rs = "[?x]"]
    unfolding k by simp
  have pv: "JSON_parse rt0 ?t = Some ?v"
    by (simp add: rt0_def parse_json_raising)
  have vv: "validateShortcuts rt0 ''2024-05-05T10:00:00.000Z'' ?v = None"
    by (rule validateShortcuts_raising)
  have 4: "importData rt0 ''2024-05-05T10:00:00.000Z'' ?t x_store = (False, x_store)"
    using pv vv C8_importData [where rt = rt0 and jsonString = ?t and st = x_store
        and now = "''2024-05-05T10:00:00.000Z''" and data = ?v]
    by blast
  show ?thesis
    unfolding 1 2 t [symmetric] using g p 3 pv vv 4 by simp
qed

text \<open>
  The claim as stated fails for a text that parses and holds an entry whose label cannot
  be converted: the entry has a target, and the entry before it is well formed, but
  nothing is repaired or persisted; \<^verbatim>\<open>importData\<close> returns \<^verbatim>\<open>false\<close> and the store keeps
  the one record it had.
\<close>

theorem C8_raising_counterexample:
  \<open>JSON_parse rt0
       ''[{"action":{"target":"y"}},{"action":{"target":"x"},"label":{"toString":1}}]'' \<noteq> None \<and>
   \<not> fst (importData rt0 ''2024-05-05T10:00:09.000Z''
       ''[{"action":{"target":"y"}},{"action":{"target":"x"},"label":{"toString":1}}]'' x_store) \<and>
   cache (snd (importData rt0 ''2024-05-05T10:00:09.000Z''
       ''[{"action":{"target":"y"}},{"action":{"target":"x"},"label":{"toString":1}}]'' x_store)) =
     Some [x_record] \<and>
   item (snd (importData rt0 ''2024-05-05T10:00:09.000Z''
       ''[{"action":{"target":"y"}},{"action":{"target":"x"},"label":{"toString":1}}]'' x_store)) =
     item x_store \<and>
   item (snd (importData rt0 ''2024-05-05T10:00:09.000Z''
       ''[{"action":{"target":"y"}},{"action":{"target":"x"},"label":{"toString":1}}]'' fresh_store)) =
     None\<close>
  by code_simp

subsection \<open>Labels\<close>

lemma trim_nonempty: "s \<noteq> [] \<Longrightarrow> \<not> is_ws (hd s) \<Longrightarrow> trim s \<noteq> []"
proof -
  assume a: "s \<noteq> []" "\<not> is_ws (hd s)"
  have 1: "dropWhile is_ws s = s" using a by (cases s) simp_all
  have "hd s \<in> set (rev s)" using a by simp
  then have "dropWhile is_ws (rev s) \<noteq> []" using a(2) by auto
  then show ?thesis by (simp add: trim_def 1)
qed

lemma sanitize_eq: "sanitize raw = (if trim raw = [] then ''XX'' else take 20 (trim raw))"
  by (simp add: sanitize_def Let_def)

lemma sanitize_nonempty: "sanitize raw \<noteq> []"
  by (simp add: sanitize_def Let_def)

lemma sanitize_length: "length (sanitize raw) \<le> 20"
  by (simp add: sanitize_def Let_def)

lemma sanitize_hd: "\<not> is_ws (hd (sanitize raw))"
proof (cases "trim raw = []")
  case True
  then show ?thesis by (simp add: sanitize_eq is_ws_def)
next
  case False
  then have "hd (take 20 (trim raw)) = hd (trim raw)" by (cases "trim raw") simp_all
  with False show ?thesis by (simp add: sanitize_eq trim_ends)
qed

lemma stored_label_props:
  "trim (sanitize raw) \<noteq> [] \<and> length (trim (sanitize raw)) \<le> 20 \<and>
   (\<not> is_ws (last (sanitize raw)) \<longrightarrow> trim (sanitize raw) = sanitize raw)"
proof -
  have "trim (sanitize raw) \<noteq> []"
    by (rule trim_nonempty) (simp_all add: sanitize_nonempty sanitize_hd)
  moreover have "length (trim (sanitize raw)) \<le> 20"
    using length_trim [of "sanitize raw"] sanitize_length [of raw] by simp
  ultimately show ?thesis
    by (simp add: trim_id sanitize_nonempty sanitize_hd)
qed

lemma sanitize_sanitize: "sanitize (sanitize raw) = trim (sanitize raw)"
  using stored_label_props [of raw] by (simp add: sanitize_def [of "sanitize raw"] Let_def)

lemma validateLabel_sanitize: "validateLabel rt (JStr (sanitize raw)) = Some (trim (sanitize raw))"
  by (simp add: validateLabel_string sanitize_sanitize)

lemma update_first_found: "find P xs = Some r \<Longrightarrow> g r \<in> set (update_first P g xs)"
  by (induction xs) (auto split: if_splits)

lemma update_first_unique:
  assumes "distinct (targets_of xs)" and "find (targets m) xs = Some r"
    and "s \<in> set (update_first (targets m) g xs)" and "targets m s"
  shows "s = g r"
  using assms
proof (induction xs)
  case Nil
  then show ?case by simp
next
  case (Cons x xs)
  show ?case
  proof (cases "targets m x")
    case True
    with Cons.prems show ?thesis
      by (auto simp: targets_of_def targets_def image_iff)
  next
    case False
    with Cons show ?thesis by (auto simp: targets_of_def)
  qed
qed

lemma find_targets: "find (targets m) xs = Some r \<Longrightarrow> targets m r"
  by (induction xs) (auto split: if_splits)

lemma save_labels:
  "save rt now v st = (True, st') \<Longrightarrow>
   \<exists>rs. cache st' = Some rs \<and> item st' = Some (JSON_stringify rt (JArr (map to_js rs))) \<and>
        (\<forall>s \<in> set rs. label s \<noteq> [] \<and> length (label s) \<le> 20)"
proof -
  assume ok: "save rt now v st = (True, st')"
  from save_cache [OF ok] obtain pre where pre: "validateShortcuts rt now v = Some pre"
    and c: "cache st' = Some (reindexPositions pre)"
      "item st' = Some (JSON_stringify rt (JArr (map to_js (reindexPositions pre))))"
    by blast
  have "\<forall>s \<in> set (reindexPositions pre). label s \<noteq> [] \<and> length (label s) \<le> 20"
    by (subst reindexPositions_all) (use validateShortcuts_valid [OF pre] in auto)
  then show ?thesis using c by blast
qed

lemma repair_to_js_Some:
  "repair rt now (to_js s) = Some r \<Longrightarrow>
   label r = sanitize (label s) \<and> target (action r) = target (action s) \<and>
   position r = position s \<and> enabled r = enabled s \<and> visible r = visible s"
  by (auto simp: repair_to_js)

lemma validateShortcuts_to_js_rel:
  "validateShortcuts rt now (JArr (map to_js xs)) = Some pre \<longleftrightarrow>
   list_all2 (\<lambda>s r. repair rt now (to_js s) = Some r)
     (filter (\<lambda>s. truthy (target (action s))) xs) pre"
  by (simp add: validateShortcuts_to_js those_eq_Some)

lemma list_all2_set1: "list_all2 P xs ys \<Longrightarrow> x \<in> set xs \<Longrightarrow> \<exists>y \<in> set ys. P x y"
  by (induction xs ys rule: list_all2_induct) auto

text \<open>
  Claim C9 (label sanitization), as amended. Without a record for the target,
  \<^verbatim>\<open>updateLabel\<close> returns \<^verbatim>\<open>false\<close> and does nothing beyond its initial \<^verbatim>\<open>load()\<close>. With a
  record for a non-empty target and a successful write, the label written for the target
  is the sanitized label (the trimmed input, \<^verbatim>\<open>"XX"\<close> when that is empty, its first 20
  characters when it is longer) with the white space at its end removed by the
  validation inside \<^verbatim>\<open>save\<close>: the sanitized label itself unless that ends in white space.
  Every label that any successful \<^verbatim>\<open>save\<close> writes is non-empty and at most 20 characters.
\<close>

theorem C9_updateLabel:
  assumes l: "load rt nowL st = (shortcuts, st1)"
  shows "(find (targets modalId) shortcuts = None \<longrightarrow>
            updateLabel rt nowL nowT nowS modalId raw st = (False, st1)) \<and>
         (find (targets modalId) shortcuts \<noteq> None \<and> modalId \<noteq> [] \<and>
          updateLabel rt nowL nowT nowS modalId raw st = (True, st') \<longrightarrow>
            (\<exists>rs. cache st' = Some rs \<and>
                  item st' = Some (JSON_stringify rt (JArr (map to_js rs))) \<and>
                  (\<forall>s \<in> set rs. label s \<noteq> [] \<and> length (label s) \<le> 20) \<and>
                  (\<exists>s \<in> set rs. targets modalId s \<and> label s = trim (sanitize raw)) \<and>
                  (distinct (targets_of shortcuts) \<longrightarrow>
                     (\<forall>s \<in> set rs. targets modalId s \<longrightarrow> label s = trim (sanitize raw))))) \<and>
         sanitize raw = (if trim raw = [] then ''XX'' else take 20 (trim raw)) \<and>
         trim (sanitize raw) \<noteq> [] \<and> length (trim (sanitize raw)) \<le> 20 \<and>
         (\<not> is_ws (last (sanitize raw)) \<longrightarrow> trim (sanitize raw) = sanitize raw) \<and>
         (save rt now v st = (True, st'') \<longrightarrow>
            (\<exists>rs. cache st'' = Some rs \<and>
                  item st'' = Some (JSON_stringify rt (JArr (map to_js rs))) \<and>
                  (\<forall>s \<in> set rs. label s \<noteq> [] \<and> length (label s) \<le> 20)))"
proof -
  let ?g = "\<lambda>s. s\<lparr>label := sanitize raw, updated_at := JStr nowT\<rparr>"
  let ?xs = "update_first (targets modalId) ?g shortcuts"
  have a: "find (targets modalId) shortcuts = None \<longrightarrow>
            updateLabel rt nowL nowT nowS modalId raw st = (False, st1)"
    by (simp add: updateLabel_def l)
  have b: "find (targets modalId) shortcuts \<noteq> None \<and> modalId \<noteq> [] \<and>
          updateLabel rt nowL nowT nowS modalId raw st = (True, st') \<longrightarrow>
            (\<exists>rs. cache st' = Some rs \<and>
                  item st' = Some (JSON_stringify rt (JArr (map to_js rs))) \<and>
                  (\<forall>s \<in> set rs. label s \<noteq> [] \<and> length (label s) \<le> 20) \<and>
                  (\<exists>s \<in> set rs. targets modalId s \<and> label s = trim (sanitize raw)) \<and>
                  (distinct (targets_of shortcuts) \<longrightarrow>
                     (\<forall>s \<in> set rs. targets modalId s \<longrightarrow> label s = trim (sanitize raw))))"
  proof (intro impI, elim conjE)
    assume f: "find (targets modalId) shortcuts \<noteq> None" and m: "modalId \<noteq> []"
      and ok: "updateLabel rt nowL nowT nowS modalId raw st = (True, st')"
    obtain r where r: "find (targets modalId) shortcuts = Some r"
      using f by auto
    have sv: "save rt nowS (JArr (map to_js ?xs)) (st1\<lparr>cache := Some ?xs\<rparr>) = (True, st')"
      using ok by (simp add: updateLabel_def l r Let_def)
    from save_cache [OF sv] obtain pre
      where pre: "validateShortcuts rt nowS (JArr (map to_js ?xs)) = Some pre"
        and c: "cache st' = Some (reindexPositions pre)"
          "item st' = Some (JSON_stringify rt (JArr (map to_js (reindexPositions pre))))"
      by blast
    let ?rs = "reindexPositions pre"
    have rel: "list_all2 (\<lambda>s r. repair rt nowS (to_js s) = Some r)
        (filter (\<lambda>s. truthy (target (action s))) ?xs) pre"
      using pre by (simp only: validateShortcuts_to_js_rel)
    have lab: "\<forall>s \<in> set ?rs. label s \<noteq> [] \<and> length (label s) \<le> 20"
      by (subst reindexPositions_all) (use validateShortcuts_valid [OF pre] in auto)
    have tr: "targets modalId r"
      using r by (rule find_targets)
    have g_in: "?g r \<in> set ?xs"
      using r by (rule update_first_found)
    have "?g r \<in> set (filter (\<lambda>s. truthy (target (action s))) ?xs)"
      using g_in tr m by (simp add: targets_def)
    from list_all2_set1 [OF rel this] obtain r'
      where r': "r' \<in> set pre" "repair rt nowS (to_js (?g r)) = Some r'"
      by blast
    have "targets modalId r'"
      using repair_to_js_Some [OF r'(2)] tr by (simp add: targets_def)
    moreover have "label r' = trim (sanitize raw)"
      using repair_to_js_Some [OF r'(2)] by (simp add: sanitize_sanitize)
    ultimately have "\<exists>s \<in> set pre. targets modalId s \<and> label s = trim (sanitize raw)"
      using r'(1) by blast
    then have ex: "\<exists>s \<in> set ?rs. targets modalId s \<and> label s = trim (sanitize raw)"
      by (subst reindexPositions_pred) (simp_all add: targets_def)
    have uniq: "distinct (targets_of shortcuts) \<longrightarrow>
        (\<forall>s \<in> set ?rs. targets modalId s \<longrightarrow> label s = trim (sanitize raw))"
    proof
      assume d: "distinct (targets_of shortcuts)"
      have u: "\<forall>s \<in> set ?xs. targets modalId s \<longrightarrow> s = ?g r"
        using update_first_unique [OF d r] by blast
      have "\<forall>s \<in> set pre. targets modalId s \<longrightarrow> label s = trim (sanitize raw)"
      proof
        fix s
        assume "s \<in> set pre"
        from list_all2_set2 [OF rel this] obtain s0
          where s0: "s0 \<in> set ?xs" "repair rt nowS (to_js s0) = Some s"
          by auto
        show "targets modalId s \<longrightarrow> label s = trim (sanitize raw)"
        proof
          assume "targets modalId s"
          then have "targets modalId s0"
            using repair_to_js_Some [OF s0(2)] by (simp add: targets_def)
          then have "s0 = ?g r" using u s0 by blast
          then show "label s = trim (sanitize raw)"
            using repair_to_js_Some [OF s0(2)] by (simp add: sanitize_sanitize)
        qed
      qed
      then show "\<forall>s \<in> set ?rs. targets modalId s \<longrightarrow> label s = trim (sanitize raw)"
        by (subst reindexPositions_all) (simp_all add: targets_def)
    qed
    show "\<exists>rs. cache st' = Some rs \<and>
                  item st' = Some (JSON_stringify rt (JArr (map to_js rs))) \<and>
                  (\<forall>s \<in> set rs. label s \<noteq> [] \<and> length (label s) \<le> 20) \<and>
                  (\<exists>s \<in> set rs. targets modalId s \<and> label s = trim (sanitize raw)) \<and>
                  (distinct (targets_of shortcuts) \<longrightarrow>
                     (\<forall>s \<in> set rs. targets modalId s \<longrightarrow> label s = trim (sanitize raw)))"
      using c lab ex uniq by blast
  qed
  have e: "save rt now v st = (True, st'') \<longrightarrow>
            (\<exists>rs. cache st'' = Some rs \<and>
                  item st'' = Some (JSON_stringify rt (JArr (map to_js rs))) \<and>
                  (\<forall>s \<in> set rs. label s \<noteq> [] \<and> length (label s) \<le> 20))"
    using save_labels [of rt now v st st''] by blast
  show ?thesis
    using a b sanitize_eq [of raw] stored_label_props [of raw] e by blast
qed

lemma cache_x_store: "cache x_store = Some [x_record]"
  by code_simp

theorem C9_witness:
  "load rt0 ''2024-05-05T10:00:01.000Z'' x_store = ([x_record], x_store) \<and>
   find (targets ''y'') [x_record] = None \<and>
   updateLabel rt0 ''2024-05-05T10:00:01.000Z'' ''2024-05-05T10:00:01.001Z''
     ''2024-05-05T10:00:01.002Z'' ''y'' ''Hello'' x_store = (False, x_store) \<and>
   find (targets ''x'') [x_record] = Some x_record \<and>
   fst (updateLabel rt0 ''2024-05-05T10:00:01.000Z'' ''2024-05-05T10:00:01.001Z''
     ''2024-05-05T10:00:01.002Z'' ''x'' ''  Hello World  '' x_store) \<and>
   cache (snd (updateLabel rt0 ''2024-05-05T10:00:01.000Z'' ''2024-05-05T10:00:01.001Z''
     ''2024-05-05T10:00:01.002Z'' ''x'' ''  Hello World  '' x_store)) =
     Some [x_record\<lparr>label := ''Hello World'', updated_at := JStr ''2024-05-05T10:00:01.001Z''\<rparr>] \<and>
   sanitize ''  Hello World  '' = ''Hello World'' \<and>
   trim (sanitize ''  Hello World  '') = ''Hello World''"
proof -
  have l: "load rt0 ''2024-05-05T10:00:01.000Z'' x_store = ([x_record], x_store)"
    using cache_x_store by (rule load_cached)
  note inst = C9_updateLabel [OF l, where nowT = "''2024-05-05T10:00:01.001Z''"
      and nowS = "''2024-05-05T10:00:01.002Z''"]
  have n: "find (targets ''y'') [x_record] = None"
    by (simp add: targets_def x_record_def)
  have 1: "updateLabel rt0 ''2024-05-05T10:00:01.000Z'' ''2024-05-05T10:00:01.001Z''
     ''2024-05-05T10:00:01.002Z'' ''y'' ''Hello'' x_store = (False, x_store)"
    using n inst [where modalId = "''y''" and raw = "''Hello''"] by blast
  have f: "find (targets ''x'') [x_record] = Some x_record"
    by (simp add: targets_def x_record_def)
  have 2: "fst (updateLabel rt0 ''2024-05-05T10:00:01.000Z'' ''2024-05-05T10:00:01.001Z''
     ''2024-05-05T10:00:01.002Z'' ''x'' ''  Hello World  '' x_store)"
    by code_simp
  have 3: "cache (snd (updateLabel rt0 ''2024-05-05T10:00:01.000Z'' ''2024-05-05T10:00:01.001Z''
     ''2024-05-05T10:00:01.002Z'' ''x'' ''  Hello World  '' x_store)) =
     Some [x_record\<lparr>label := ''Hello World'', updated_at := JStr ''2024-05-05T10:00:01.001Z''\<rparr>]"
    by code_simp
  have 4: "sanitize ''  Hello World  '' = ''Hello World''"
    by code_simp
  have "\<not> is_ws (last (sanitize ''  Hello World  ''))"
    unfolding 4 by (simp add: is_ws_def)
  then have 5: "trim (sanitize ''  Hello World  '') = ''Hello World''"
    using inst [where raw = "''  Hello World  ''"] 4 by metis
  show ?thesis
    using l n 1 f 2 3 4 5 by blast
qed

text \<open>
  The claim as stated fails for a label whose twentieth character after trimming is
  white space: \<^verbatim>\<open>updateLabel\<close> cuts the label to 20 characters, and the validation inside
  \<^verbatim>\<open>save\<close> trims the result again, so 19 characters are written, not the 20-character
  prefix.
\<close>

theorem C9_prefix_counterexample:
  "fst (updateLabel rt0 ''2024-05-05T10:00:01.000Z'' ''2024-05-05T10:00:01.001Z''
     ''2024-05-05T10:00:01.002Z'' ''x'' ''aaaaaaaaaaaaaaaaaaa bbbb'' x_store) \<and>
   cache (snd (updateLabel rt0 ''2024-05-05T10:00:01.000Z'' ''2024-05-05T10:00:01.001Z''
     ''2024-05-05T10:00:01.002Z'' ''x'' ''aaaaaaaaaaaaaaaaaaa bbbb'' x_store)) =
     Some [x_record\<lparr>label := ''aaaaaaaaaaaaaaaaaaa'',
                     updated_at := JStr ''2024-05-05T10:00:01.001Z''\<rparr>] \<and>
   take 20 (trim ''aaaaaaaaaaaaaaaaaaa bbbb'') = ''aaaaaaaaaaaaaaaaaaa '' \<and>
   ''aaaaaaaaaaaaaaaaaaa'' \<noteq> take 20 (trim ''aaaaaaaaaaaaaaaaaaa bbbb'')"
  by code_simp

subsection \<open>Targets stay distinct\<close>










































subsection \<open>The default label\<close>

lemma words_of_dropWhile: "words_of (dropWhile is_ws s) = words_of s"
  by (induction s) simp_all

lemma split_ws_ne: "split_ws s \<noteq> []"
  by (induction s rule: split_ws.induct) (auto split: list.splits)

lemma split_ws_word:
  "\<not> is_ws c \<Longrightarrow>
   split_ws (c # cs) =
     (c # takeWhile (\<lambda>x. \<not> is_ws x) cs) #
       (case dropWhile (\<lambda>x. \<not> is_ws x) cs of [] \<Rightarrow> [] | d # ds \<Rightarrow> split_ws (dropWhile is_ws ds))"
proof (induction cs arbitrary: c)
  case Nil
  then show ?case by simp
next
  case (Cons e es)
  show ?case
  proof (cases "is_ws e")
    case True
    with Cons.prems show ?thesis by simp
  next
    case False
    with Cons.prems Cons.IH [of e] show ?thesis by simp
  qed
qed

lemma first_letters_dropWhile:
  "concat (map (take (Suc 0)) (split_ws (dropWhile is_ws s))) =
   concat (map (take (Suc 0)) (split_ws s))"
  by (cases s) simp_all

lemma first_letters: "concat (map (take (Suc 0)) (split_ws s)) = map hd (words_of s)"
proof (induction "length s" arbitrary: s rule: less_induct)
  case less
  show ?case
  proof (cases s)
    case Nil
    then show ?thesis by simp
  next
    case (Cons c cs)
    show ?thesis
    proof (cases "is_ws c")
      case True
      have "concat (map (take (Suc 0)) (split_ws cs)) = map hd (words_of cs)"
        using less [of cs] Cons by simp
      with True Cons show ?thesis by (simp add: first_letters_dropWhile)
    next
      case False
      show ?thesis
      proof (cases "dropWhile (\<lambda>x. \<not> is_ws x) cs")
        case Nil
        show ?thesis
          using False by (simp add: Cons split_ws_word Nil del: split_ws.simps)
      next
        case (Cons d ds)
        have d: "is_ws d"
          using hd_dropWhile [of "\<lambda>x. \<not> is_ws x" cs] Cons by simp
        have "length ds < length s"
          using length_dropWhile_le [of "\<lambda>x. \<not> is_ws x" cs] Cons \<open>s = c # cs\<close> by simp
        then have "concat (map (take (Suc 0)) (split_ws ds)) = map hd (words_of ds)"
          by (rule less)
        with d False Cons \<open>s = c # cs\<close> show ?thesis
          by (simp add: split_ws_word first_letters_dropWhile del: split_ws.simps)
      qed
    qed
  qed
qed

lemma words_of_ws: "\<forall>y \<in> set ys. is_ws y \<Longrightarrow> words_of ys = []"
  by (induction ys) simp_all

lemma words_of_append_ws:
  assumes "\<forall>y \<in> set ys. is_ws y"
  shows "words_of (xs @ ys) = words_of xs"
proof (induction "length xs" arbitrary: xs rule: less_induct)
  case less
  show ?case
  proof (cases xs)
    case Nil
    then show ?thesis using assms by (simp add: words_of_ws)
  next
    case (Cons c cs)
    show ?thesis
    proof (cases "is_ws c")
      case True
      then show ?thesis using less [of cs] Cons by simp
    next
      case False
      show ?thesis
      proof (cases "\<forall>x \<in> set cs. \<not> is_ws x")
        case True
        have t: "takeWhile (\<lambda>x. \<not> is_ws x) (cs @ ys) = cs"
          using True assms by (cases ys) simp_all
        have d: "dropWhile (\<lambda>x. \<not> is_ws x) (cs @ ys) = ys"
          using True assms by (cases ys) simp_all
        have tk: "takeWhile (\<lambda>x. \<not> is_ws x) cs = cs"
          and dk: "dropWhile (\<lambda>x. \<not> is_ws x) cs = []"
          using True by simp_all
        show ?thesis
          using False Cons assms by (simp add: t d tk dk words_of_ws)
      next
        case nws: False
        then have t: "takeWhile (\<lambda>x. \<not> is_ws x) (cs @ ys) = takeWhile (\<lambda>x. \<not> is_ws x) cs"
          and d: "dropWhile (\<lambda>x. \<not> is_ws x) (cs @ ys) = dropWhile (\<lambda>x. \<not> is_ws x) cs @ ys"
          by auto
        have "length (dropWhile (\<lambda>x. \<not> is_ws x) cs) < length xs"
          using length_dropWhile_le [of "\<lambda>x. \<not> is_ws x" cs] Cons by simp
        then have "words_of (dropWhile (\<lambda>x. \<not> is_ws x) cs @ ys) =
            words_of (dropWhile (\<lambda>x. \<not> is_ws x) cs)"
          by (rule less)
        then show ?thesis
          using False Cons by (simp add: t d)
      qed
    qed
  qed
qed

lemma words_of_trim: "words_of (trim s) = words_of s"
proof -
  let ?t = "dropWhile is_ws s"
  have "rev ?t = takeWhile is_ws (rev ?t) @ dropWhile is_ws (rev ?t)"
    by simp
  then have "?t = rev (dropWhile is_ws (rev ?t)) @ rev (takeWhile is_ws (rev ?t))"
    by (metis rev_append rev_rev_ident)
  then have "?t = trim s @ rev (takeWhile is_ws (rev ?t))"
    by (simp add: trim_def)
  moreover have "\<forall>y \<in> set (rev (takeWhile is_ws (rev ?t))). is_ws y"
    by (auto dest: set_takeWhileD)
  ultimately have "words_of ?t = words_of (trim s)"
    using words_of_append_ws by metis
  then show ?thesis by (simp add: words_of_dropWhile)
qed

text \<open>
  The default label in the words of the specification: the first characters of the
  words of the title, in upper case, cut to three characters, \<^verbatim>\<open>"XX"\<close> when there is none.
\<close>

lemma generateDefaultLabel_spec:
  assumes "toUpperCase rt [] = []"
  shows "generateDefaultLabel rt title = default_label_spec rt title"
proof (cases "title = []")
  case True
  then show ?thesis
    using assms by (simp add: generateDefaultLabel_def default_label_spec_def)
next
  case False
  then show ?thesis
    by (simp add: generateDefaultLabel_def default_label_spec_def first_letters words_of_trim
        Let_def)
qed

lemma generateDefaultLabel_examples:
  "generateDefaultLabel rt0 ''Mission Control Panel'' = ''MCP'' \<and>
   generateDefaultLabel rt0 [] = ''XX'' \<and>
   generateDefaultLabel rt0 ''   '' = ''XX'' \<and>
   generateDefaultLabel rt0 ''Alpha Beta'' = ''AB''"
  by code_simp

subsection \<open>Toggle\<close>

lemma split_ws_no_ws: "\<forall>w \<in> set (split_ws s). \<forall>c \<in> set w. \<not> is_ws c"
proof (induction s rule: split_ws.induct)
  case 1
  show ?case by simp
next
  case (2 d ds)
  show ?case
  proof (cases "is_ws d")
    case True
    with 2 show ?thesis by simp
  next
    case False
    with 2 show ?thesis by (cases "split_ws ds") auto
  qed
qed

lemma label_ok_no_ws: "l \<noteq> [] \<Longrightarrow> length l \<le> 20 \<Longrightarrow> \<forall>c \<in> set l. \<not> is_ws c \<Longrightarrow> label_ok l"
  by (simp add: label_ok_def)

lemma label_ok_generateDefaultLabel:
  assumes "upper_clean rt"
  shows "label_ok (generateDefaultLabel rt title)"
proof -
  let ?letters = "concat (map (take 1) (split_ws (trim title)))"
  let ?short = "take 3 (toUpperCase rt ?letters)"
  have "\<forall>c \<in> set ?letters. \<not> is_ws c"
    using split_ws_no_ws [of "trim title"] by (auto dest: in_set_takeD)
  then have "\<forall>c \<in> set (toUpperCase rt ?letters). \<not> is_ws c"
    using assms unfolding upper_clean_def by blast
  then have clean: "\<forall>c \<in> set ?short. \<not> is_ws c"
    by (auto dest: in_set_takeD)
  have xx: "label_ok ''XX''"
    by (simp add: label_ok_def is_ws_def)
  have "?short \<noteq> [] \<Longrightarrow> label_ok ?short"
    using clean by (intro label_ok_no_ws) simp_all
  then show ?thesis
    using xx by (simp add: generateDefaultLabel_def Let_def)
qed

lemma well_formed_new_shortcut:
  "upper_clean rt \<Longrightarrow> modalId \<noteq> [] \<Longrightarrow> now \<noteq> [] \<Longrightarrow>
   well_formed (new_shortcut rt now modalId title n)"
  by (simp add: well_formed_def new_shortcut_def label_ok_generateDefaultLabel)

lemma saved_form_snoc:
  "saved_form xs \<Longrightarrow> well_formed x \<Longrightarrow> position x = index_num (length xs) \<Longrightarrow> saved_form (xs @ [x])"
  by (simp add: saved_form_def dense_def)

lemma positions_update_first:
  "(\<And>s. position (g s) = position s) \<Longrightarrow>
   map position (update_first P g xs) = map position xs"
  by (induction xs) simp_all

lemma length_update_first [simp]: "length (update_first P g xs) = length xs"
  by (induction xs) simp_all

lemma well_formed_update_first:
  "(\<And>s. well_formed s \<Longrightarrow> well_formed (g s)) \<Longrightarrow> list_all well_formed xs \<Longrightarrow>
   list_all well_formed (update_first P g xs)"
  by (induction xs) simp_all

lemma saved_form_update_first:
  assumes "saved_form xs" and "now \<noteq> []"
  shows "saved_form (update_first P (\<lambda>s. s\<lparr>enabled := e, updated_at := JStr now\<rparr>) xs)"
proof -
  have "list_all well_formed (update_first P (\<lambda>s. s\<lparr>enabled := e, updated_at := JStr now\<rparr>) xs)"
    using assms by (intro well_formed_update_first) (simp_all add: saved_form_def well_formed_def)
  moreover have "map position (update_first P (\<lambda>s. s\<lparr>enabled := e, updated_at := JStr now\<rparr>) xs)
      = map position xs"
    by (rule positions_update_first) simp
  ultimately show ?thesis
    using assms(1) by (simp add: saved_form_def dense_def)
qed

lemma save_saved_form:
  assumes "saved_form xs" and "cache st = Some xs"
  shows "cache (snd (save rt now (JArr (map to_js xs)) st)) = Some xs \<and>
         (fst (save rt now (JArr (map to_js xs)) st) \<longrightarrow>
            item (snd (save rt now (JArr (map to_js xs)) st)) =
              Some (JSON_stringify rt (JArr (map to_js xs))))"
proof -
  have v: "validateShortcuts rt now (JArr (map to_js xs)) = Some xs"
    using assms(1) by (intro validateShortcuts_well_formed) (simp add: saved_form_def list_all_iff)
  have r: "reindexPositions xs = xs"
    using assms(1) by (intro reindexPositions_dense) (simp add: saved_form_def dense_def)
  show ?thesis
    using assms(2) by (simp add: save_def Let_def v r dispatchChangeEvent_def)
qed

lemma upper_clean_rt0: "upper_clean rt0"
proof -
  have "\<not> is_ws c \<Longrightarrow> \<not> is_ws (ascii_upper c)" for c
    by (auto simp: ascii_upper_def is_ws_def split: option.splits if_splits)
  then show ?thesis
    by (auto simp: upper_clean_def rt0_def)
qed


text \<open>
  Claim C6 (toggle semantics), as amended: for a non-empty target, a cache in saved form
  (well-formed records at positions \<open>0, ..., n - 1\<close>) and a runtime whose upper case makes
  no white space. Without a record for the target, \<^verbatim>\<open>toggle(target, true, title)\<close> adds
  at the end of the cached sequence the record with id \<^verbatim>\<open>"shortcut-" + target\<close>, the default
  label of the title, position \<open>n\<close>, enabled and visible, both timestamps the time of
  the call, and leaves the other records as they are; \<^verbatim>\<open>toggle(target, false)\<close> adds
  nothing and is the save of the cached sequence. With a record for the target, the
  cached sequence changes in the \<^verbatim>\<open>enabled\<close> and \<^verbatim>\<open>updated_at\<close> of that record only. In each
  case the cache is so whether or not the write succeeds, and the stored text is the text
  of the cache when it does. The default label is made of the first characters of the
  words of the title, in upper case, cut to three characters, and is \<^verbatim>\<open>"XX"\<close> when there
  is none.
\<close>

theorem C6_toggle:
  assumes l: "load rt nowL st = (shortcuts, st1)"
    and sf: "saved_form shortcuts"
    and m: "modalId \<noteq> []"
    and t: "nowT \<noteq> []"
    and u: "upper_clean rt"
  shows "(find (targets modalId) shortcuts = None \<longrightarrow>
            cache (snd (toggle rt nowL nowT nowS modalId True title st)) =
              Some (shortcuts @
                [\<lparr>id_js = JStr (''shortcut-'' @ modalId), label = generateDefaultLabel rt title,
                  enabled = True, action = \<lparr>type = JStr ''modal'', target = JStr modalId\<rparr>,
                  position = index_num (length shortcuts), visible = True,
                  created_at = JStr nowT, updated_at = JStr nowT\<rparr>]) \<and>
            toggle rt nowL nowT nowS modalId False title st =
              save rt nowS (JArr (map to_js shortcuts)) st1 \<and>
            cache (snd (toggle rt nowL nowT nowS modalId False title st)) = Some shortcuts) \<and>
         (find (targets modalId) shortcuts \<noteq> None \<longrightarrow>
            cache (snd (toggle rt nowL nowT nowS modalId e title st)) =
              Some (update_first (targets modalId)
                (\<lambda>s. s\<lparr>enabled := e, updated_at := JStr nowT\<rparr>) shortcuts)) \<and>
         (fst (toggle rt nowL nowT nowS modalId e title st) \<longrightarrow>
            (\<exists>c. cache (snd (toggle rt nowL nowT nowS modalId e title st)) = Some c \<and>
                 item (snd (toggle rt nowL nowT nowS modalId e title st)) =
                   Some (JSON_stringify rt (JArr (map to_js c))))) \<and>
         (toUpperCase rt [] = [] \<longrightarrow>
            generateDefaultLabel rt title =
              (let short = take 3 (toUpperCase rt (map hd (words_of title)))
               in if short = [] then ''XX'' else short))"
proof -
  have cs: "cache st1 = Some shortcuts"
    using load_cache [of rt nowL st] by (simp add: l)
  let ?new = "new_shortcut rt nowT modalId title (length shortcuts)"
  let ?upd = "update_first (targets modalId)
    (\<lambda>s. s\<lparr>enabled := e, updated_at := JStr nowT\<rparr>) shortcuts"
  have new: "?new = \<lparr>id_js = JStr (''shortcut-'' @ modalId), label = generateDefaultLabel rt title,
      enabled = True, action = \<lparr>type = JStr ''modal'', target = JStr modalId\<rparr>,
      position = index_num (length shortcuts), visible = True,
      created_at = JStr nowT, updated_at = JStr nowT\<rparr>"
    by (simp add: new_shortcut_def)
  have sf_new: "saved_form (shortcuts @ [?new])"
    using sf well_formed_new_shortcut [OF u m t]
    by (intro saved_form_snoc) (simp_all add: new_shortcut_def)
  have sf_upd: "saved_form ?upd"
    using sf t by (rule saved_form_update_first)
  have same: "st1\<lparr>cache := Some shortcuts\<rparr> = st1"
    using cs by simp
  have sv_new: "cache (snd (save rt nowS (JArr (map to_js (shortcuts @ [?new])))
        (st1\<lparr>cache := Some (shortcuts @ [?new])\<rparr>))) = Some (shortcuts @ [?new]) \<and>
      (fst (save rt nowS (JArr (map to_js (shortcuts @ [?new])))
          (st1\<lparr>cache := Some (shortcuts @ [?new])\<rparr>)) \<longrightarrow>
       item (snd (save rt nowS (JArr (map to_js (shortcuts @ [?new])))
          (st1\<lparr>cache := Some (shortcuts @ [?new])\<rparr>))) =
         Some (JSON_stringify rt (JArr (map to_js (shortcuts @ [?new])))))"
    using sf_new by (rule save_saved_form) simp
  have sv_upd: "cache (snd (save rt nowS (JArr (map to_js ?upd)) (st1\<lparr>cache := Some ?upd\<rparr>))) =
        Some ?upd \<and>
      (fst (save rt nowS (JArr (map to_js ?upd)) (st1\<lparr>cache := Some ?upd\<rparr>)) \<longrightarrow>
       item (snd (save rt nowS (JArr (map to_js ?upd)) (st1\<lparr>cache := Some ?upd\<rparr>))) =
         Some (JSON_stringify rt (JArr (map to_js ?upd))))"
    using sf_upd by (rule save_saved_form) simp
  have sv_same: "cache (snd (save rt nowS (JArr (map to_js shortcuts)) st1)) = Some shortcuts \<and>
      (fst (save rt nowS (JArr (map to_js shortcuts)) st1) \<longrightarrow>
       item (snd (save rt nowS (JArr (map to_js shortcuts)) st1)) =
         Some (JSON_stringify rt (JArr (map to_js shortcuts))))"
    using sf cs by (rule save_saved_form)
  have tg_new: "find (targets modalId) shortcuts = None \<Longrightarrow>
      toggle rt nowL nowT nowS modalId True title st =
        save rt nowS (JArr (map to_js (shortcuts @ [?new])))
          (st1\<lparr>cache := Some (shortcuts @ [?new])\<rparr>)"
    by (simp add: toggle_def l Let_def)
  have tg_same: "find (targets modalId) shortcuts = None \<Longrightarrow>
      toggle rt nowL nowT nowS modalId False title st =
        save rt nowS (JArr (map to_js shortcuts)) st1"
    by (simp add: toggle_def l)
  have tg_upd: "find (targets modalId) shortcuts \<noteq> None \<Longrightarrow>
      toggle rt nowL nowT nowS modalId e title st =
        save rt nowS (JArr (map to_js ?upd)) (st1\<lparr>cache := Some ?upd\<rparr>)"
    by (auto simp: toggle_def l Let_def)
  have 1: "find (targets modalId) shortcuts = None \<longrightarrow>
            cache (snd (toggle rt nowL nowT nowS modalId True title st)) =
              Some (shortcuts @ [?new]) \<and>
            toggle rt nowL nowT nowS modalId False title st =
              save rt nowS (JArr (map to_js shortcuts)) st1 \<and>
            cache (snd (toggle rt nowL nowT nowS modalId False title st)) = Some shortcuts"
    using sv_new sv_same by (simp add: tg_new tg_same)
  have 2: "find (targets modalId) shortcuts \<noteq> None \<longrightarrow>
            cache (snd (toggle rt nowL nowT nowS modalId e title st)) = Some ?upd"
    using sv_upd by (simp add: tg_upd)
  have 3: "fst (toggle rt nowL nowT nowS modalId e title st) \<longrightarrow>
            (\<exists>c. cache (snd (toggle rt nowL nowT nowS modalId e title st)) = Some c \<and>
                 item (snd (toggle rt nowL nowT nowS modalId e title st)) =
                   Some (JSON_stringify rt (JArr (map to_js c))))"
  proof (cases "find (targets modalId) shortcuts = None")
    case True
    show ?thesis
    proof (cases e)
      case True
      with \<open>find (targets modalId) shortcuts = None\<close> show ?thesis
        using sv_new by (simp add: tg_new)
    next
      case False
      with \<open>find (targets modalId) shortcuts = None\<close> show ?thesis
        using sv_same by (simp add: tg_same)
    qed
  next
    case False
    then show ?thesis
      using sv_upd by (simp add: tg_upd)
  qed
  have 4: "toUpperCase rt [] = [] \<longrightarrow>
            generateDefaultLabel rt title =
              (let short = take 3 (toUpperCase rt (map hd (words_of title)))
               in if short = [] then ''XX'' else short)"
    using generateDefaultLabel_spec [of rt title] by (simp add: default_label_spec_def)
  show ?thesis
    using 1 2 3 4 unfolding new by blast
qed


lemma saved_form_x_record: "saved_form [x_record]"
  by (simp add: saved_form_def dense_def well_formed_def label_ok_def x_record_def is_ws_def
      index_num_def)

theorem C6_witness:
  "load rt0 ''2024-05-05T10:00:01.000Z'' x_store = ([x_record], x_store) \<and>
   saved_form [x_record] \<and> ''y'' \<noteq> [] \<and> ''2024-05-05T10:00:01.001Z'' \<noteq> [] \<and> upper_clean rt0 \<and>
   find (targets ''y'') [x_record] = None \<and>
   toUpperCase rt0 [] = [] \<and> map hd (words_of ''Yellow Zebra'') = ''YZ'' \<and>
   generateDefaultLabel rt0 ''Yellow Zebra'' = ''YZ'' \<and>
   cache (snd (toggle rt0 ''2024-05-05T10:00:01.000Z'' ''2024-05-05T10:00:01.001Z''
       ''2024-05-05T10:00:01.002Z'' ''y'' True ''Yellow Zebra'' x_store)) =
     Some [x_record,
           \<lparr>id_js = JStr ''shortcut-y'', label = ''YZ'', enabled = True,
            action = \<lparr>type = JStr ''modal'', target = JStr ''y''\<rparr>, position = Fin 1, visible = True,
            created_at = JStr ''2024-05-05T10:00:01.001Z'',
            updated_at = JStr ''2024-05-05T10:00:01.001Z''\<rparr>] \<and>
   cache (snd (toggle rt0 ''2024-05-05T10:00:01.000Z'' ''2024-05-05T10:00:01.001Z''
       ''2024-05-05T10:00:01.002Z'' ''y'' False ''Yellow Zebra'' x_store)) = Some [x_record] \<and>
   find (targets ''x'') [x_record] = Some x_record \<and>
   cache (snd (toggle rt0 ''2024-05-05T10:00:01.000Z'' ''2024-05-05T10:00:01.001Z''
       ''2024-05-05T10:00:01.002Z'' ''x'' False [] x_store)) =
     Some [x_record\<lparr>enabled := False, updated_at := JStr ''2024-05-05T10:00:01.001Z''\<rparr>]"
proof -
  have l: "load rt0 ''2024-05-05T10:00:01.000Z'' x_store = ([x_record], x_store)"
    using cache_x_store by (rule load_cached)
  have t: "''2024-05-05T10:00:01.001Z'' \<noteq> []" and y: "''y'' \<noteq> []" and x: "''x'' \<noteq> []"
    by simp_all
  note inst = C6_toggle [OF l saved_form_x_record _ t upper_clean_rt0,
      where nowS = "''2024-05-05T10:00:01.002Z''"]
  have ny: "find (targets ''y'') [x_record] = None"
    by (simp add: targets_def x_record_def)
  have fx: "find (targets ''x'') [x_record] = Some x_record"
    by (simp add: targets_def x_record_def)
  have up: "toUpperCase rt0 [] = []"
    by (simp add: rt0_def)
  have w: "map hd (words_of ''Yellow Zebra'') = ''YZ''"
    by code_simp
  have "generateDefaultLabel rt0 ''Yellow Zebra'' =
      (let short = take 3 (toUpperCase rt0 (map hd (words_of ''Yellow Zebra'')))
       in if short = [] then ''XX'' else short)"
    using inst [OF y, where title = "''Yellow Zebra''"] up by blast
  then have g: "generateDefaultLabel rt0 ''Yellow Zebra'' = ''YZ''"
    unfolding w by (simp add: rt0_def ascii_upper_def)
  have 1: "cache (snd (toggle rt0 ''2024-05-05T10:00:01.000Z'' ''2024-05-05T10:00:01.001Z''
       ''2024-05-05T10:00:01.002Z'' ''y'' True ''Yellow Zebra'' x_store)) =
     Some [x_record,
           \<lparr>id_js = JStr ''shortcut-y'', label = ''YZ'', enabled = True,
            action = \<lparr>type = JStr ''modal'', target = JStr ''y''\<rparr>, position = Fin 1, visible = True,
            created_at = JStr ''2024-05-05T10:00:01.001Z'',
            updated_at = JStr ''2024-05-05T10:00:01.001Z''\<rparr>]"
    using inst [OF y, where title = "''Yellow Zebra''"] ny by (simp add: g index_num_def)
  have 2: "cache (snd (toggle rt0 ''2024-05-05T10:00:01.000Z'' ''2024-05-05T10:00:01.001Z''
       ''2024-05-05T10:00:01.002Z'' ''y'' False ''Yellow Zebra'' x_store)) = Some [x_record]"
    using inst [OF y, where title = "''Yellow Zebra''"] ny by blast
  have 3: "cache (snd (toggle rt0 ''2024-05-05T10:00:01.000Z'' ''2024-05-05T10:00:01.001Z''
       ''2024-05-05T10:00:01.002Z'' ''x'' False [] x_store)) =
     Some [x_record\<lparr>enabled := False, updated_at := JStr ''2024-05-05T10:00:01.001Z''\<rparr>]"
    using inst [OF x, where title = "[]" and e = False] fx
    by (simp add: targets_def x_record_def)
  show ?thesis
    using l saved_form_x_record y t upper_clean_rt0 ny up w g 1 2 fx 3 by blast
qed

text \<open>
  The claim as stated fails for a cache that is not in saved form. \<^verbatim>\<open>load\<close> validates
  what it reads but does not renumber it, and the \<^verbatim>\<open>save\<close> inside \<^verbatim>\<open>toggle\<close> renumbers every
  record: a record read at position 7 is at position 0 after \<^verbatim>\<open>toggle\<close> has enabled it.
\<close>

theorem C6_position_counterexample:
  \<open>fst (load rt0 ''2024-05-05T10:00:00.000Z''
       (store_with ''[{"action":{"target":"x"},"position":7}]'')) =
     [\<lparr>id_js = JStr ''shortcut-x'', label = ''XX'', enabled = False,
       action = \<lparr>type = JStr ''modal'', target = JStr ''x''\<rparr>, position = Fin 7, visible = True,
       created_at = JStr ''2024-05-05T10:00:00.000Z'',
       updated_at = JStr ''2024-05-05T10:00:00.000Z''\<rparr>] \<and>
   fst (toggle rt0 ''2024-05-05T10:00:00.000Z'' ''2024-05-05T10:00:00.001Z''
       ''2024-05-05T10:00:00.002Z'' ''x'' True []
       (store_with ''[{"action":{"target":"x"},"position":7}]'')) \<and>
   cache (snd (toggle rt0 ''2024-05-05T10:00:00.000Z'' ''2024-05-05T10:00:00.001Z''
       ''2024-05-05T10:00:00.002Z'' ''x'' True []
       (store_with ''[{"action":{"target":"x"},"position":7}]''))) =
     Some [\<lparr>id_js = JStr ''shortcut-x'', label = ''XX'', enabled = True,
       action = \<lparr>type = JStr ''modal'', target = JStr ''x''\<rparr>, position = Fin 0, visible = True,
       created_at = JStr ''2024-05-05T10:00:00.000Z'',
       updated_at = JStr ''2024-05-05T10:00:00.001Z''\<rparr>]\<close>
  by code_simp

subsection \<open>Further examples\<close>

text \<open>
  The session of the specification's example: the second \<^verbatim>\<open>open\<close> is rejected, \<^verbatim>\<open>close\<close>
  250 milliseconds after \<^verbatim>\<open>open\<close> returns 250, and \<^verbatim>\<open>open\<close> is accepted again.
\<close>

lemma modal_session_example:
  "modal_run [Open 1000 ''m1'' ''mod1''] =
     \<lparr>activeModalId = Some ''m1'', activeModuleId = Some ''mod1'', openedAt = Some 1000,
      previousModalId = None, isTransitioning = False\<rparr> \<and>
   open_modal 1100 ''m2'' ''mod2'' (modal_run [Open 1000 ''m1'' ''mod1'']) =
     (False, modal_run [Open 1000 ''m1'' ''mod1'']) \<and>
   fst (close_modal 1250 (modal_run [Open 1000 ''m1'' ''mod1''])) = 250 \<and>
   fst (open_modal 1300 ''m2'' ''mod2'' (modal_run [Open 1000 ''m1'' ''mod1'', Close 1250]))"
  by (simp add: modal_run_def new_ModalState_def open_modal_def close_modal_def truthy_id_def
      truthy_time_def)

text \<open>
  What \<^verbatim>\<open>toggle\<close> pushes into the cached array stays there when the write fails: the
  cache then holds a record that the storage does not.
\<close>

lemma toggle_write_failure_example:
  "\<not> fst (toggle rt0 ''2024-05-05T10:00:01.000Z'' ''2024-05-05T10:00:01.001Z''
       ''2024-05-05T10:00:01.002Z'' ''b'' True ''Bravo'' full_store) \<and>
   cache full_store = Some [sample ''a'' 0] \<and>
   map (\<lambda>s. target (action s))
     (case cache (snd (toggle rt0 ''2024-05-05T10:00:01.000Z'' ''2024-05-05T10:00:01.001Z''
        ''2024-05-05T10:00:01.002Z'' ''b'' True ''Bravo'' full_store)) of
        None \<Rightarrow> [] | Some c \<Rightarrow> c) = [JStr ''a'', JStr ''b''] \<and>
   item (snd (toggle rt0 ''2024-05-05T10:00:01.000Z'' ''2024-05-05T10:00:01.001Z''
       ''2024-05-05T10:00:01.002Z'' ''b'' True ''Bravo'' full_store)) = item full_store"
  by code_simp

text \<open>
  The record that \<^verbatim>\<open>toggle\<close> creates for the empty target does not pass the filter of
  \<^verbatim>\<open>validateShortcuts\<close>: \<^verbatim>\<open>toggle("", true, "Title")\<close> returns \<^verbatim>\<open>true\<close> and nothing is kept.
\<close>

lemma toggle_empty_target_example:
  "fst (toggle rt0 ''2024-05-05T10:00:00.000Z'' ''2024-05-05T10:00:00.001Z''
       ''2024-05-05T10:00:00.002Z'' [] True ''Title'' fresh_store) \<and>
   cache (snd (toggle rt0 ''2024-05-05T10:00:00.000Z'' ''2024-05-05T10:00:00.001Z''
       ''2024-05-05T10:00:00.002Z'' [] True ''Title'' fresh_store)) = Some [] \<and>
   item (snd (toggle rt0 ''2024-05-05T10:00:00.000Z'' ''2024-05-05T10:00:00.001Z''
       ''2024-05-05T10:00:00.002Z'' [] True ''Title'' fresh_store)) = Some ''[]''"
  by code_simp

text \<open>
  A label of more than 20 characters is cut after trimming, so a written label can end
  in white space; the next save, here the one of \<^verbatim>\<open>toggle\<close>, trims it.
\<close>

lemma label_trimmed_again_example:
  \<open>map label (case cache (snd (importData rt0 ''2024-05-05T10:00:00.000Z''
        ''[{"action":{"target":"x"},"label":"aaaaaaaaaaaaaaaaaaa bbbb"}]'' fresh_store)) of
        None \<Rightarrow> [] | Some c \<Rightarrow> c) = [''aaaaaaaaaaaaaaaaaaa ''] \<and>
   map label (case cache (snd (toggle rt0 ''2024-05-05T10:00:01.000Z''
        ''2024-05-05T10:00:01.001Z'' ''2024-05-05T10:00:01.002Z'' ''x'' True []
        (snd (importData rt0 ''2024-05-05T10:00:00.000Z''
          ''[{"action":{"target":"x"},"label":"aaaaaaaaaaaaaaaaaaa bbbb"}]'' fresh_store)))) of
        None \<Rightarrow> [] | Some c \<Rightarrow> c) = [''aaaaaaaaaaaaaaaaaaa'']\<close>
  by code_simp

text \<open>
  Positions need not be integers, and a position can be given as a string: \<^verbatim>\<open>"0.5"\<close>,
  \<^verbatim>\<open>0.25\<close> and \<^verbatim>\<open>"-Infinity"\<close> are the numbers they denote. The records are written in
  the order of these numbers, at the positions 0, 1 and 2.
\<close>

lemma fraction_position_example:
  \<open>map (\<lambda>s. (target (action s), position s))
     (fst (load rt0 ''2024-05-05T10:00:00.000Z'' (store_with
       ''[{"action":{"target":"a"},"position":"0.5"},{"action":{"target":"b"},"position":0.25},{"action":{"target":"c"},"position":"-Infinity"}]''))) =
     [(JStr ''a'', Fin (1 / 2)), (JStr ''b'', Fin (1 / 4)), (JStr ''c'', NegInf)] \<and>
   map (\<lambda>s. (target (action s), position s))
     (case cache (snd (importData rt0 ''2024-05-05T10:00:00.000Z''
       ''[{"action":{"target":"a"},"position":"0.5"},{"action":{"target":"b"},"position":0.25},{"action":{"target":"c"},"position":"-Infinity"}]''
       fresh_store)) of None \<Rightarrow> [] | Some c \<Rightarrow> c) =
     [(JStr ''c'', Fin 0), (JStr ''b'', Fin 1), (JStr ''a'', Fin 2)]\<close>
  by code_simp

text \<open>
  An entry whose label is an object with a property \<^verbatim>\<open>toString\<close> makes the validation
  raise. \<^verbatim>\<open>load\<close> then answers with the empty sequence and writes the empty array over
  the stored text; an object without that property is the label \<^verbatim>\<open>[object Object]\<close>.
\<close>

lemma conversion_raises_example:
  \<open>to_string rt0 (JObj [(''toString'', JNum (Fin 1))]) = None \<and>
   to_string rt0 (JArr [JNum (Fin 1), JArr [JObj [(''toString'', JNull)]]]) = None \<and>
   to_number rt0 (JObj [(''toString'', JNum (Fin 1))]) = None \<and>
   to_string rt0 (JObj [(''valueOf'', JNum (Fin 1))]) = Some ''[object Object]'' \<and>
   to_number rt0 (JObj [(''valueOf'', JNum (Fin 1))]) = Some None \<and>
   to_string rt0 (JArr [JNum (Fin 1), JNull, JArr [JStr ''a'', JBool True]]) = Some ''1,,a,true'' \<and>
   to_number rt0 (JArr [JStr '' 7.5 '']) = Some (Some (Fin (15 / 2))) \<and>
   fst (load rt0 ''2024-05-05T10:00:00.000Z''
       (store_with ''[{"action":{"target":"x"},"label":{"toString":1}}]'')) = [] \<and>
   item (snd (load rt0 ''2024-05-05T10:00:00.000Z''
       (store_with ''[{"action":{"target":"x"},"label":{"toString":1}}]''))) = Some ''[]'' \<and>
   events (snd (load rt0 ''2024-05-05T10:00:00.000Z''
       (store_with ''[{"action":{"target":"x"},"label":{"toString":1}}]''))) = [[]] \<and>
   map label (fst (load rt0 ''2024-05-05T10:00:00.000Z''
       (store_with ''[{"action":{"target":"x"},"label":{"tostring":1}}]''))) =
     [''[object Object]'']\<close>
  by code_simp

end
